theory Spec2Isabelle
  imports Complex_Main "HOL-Library.AList" "HOL-Library.Sublist" "HOL-Library.Word"
begin

section \<open>The progress store (server/storage.ts)\<close>

text \<open>
  \<^verbatim>\<open>DownloadProgress\<close> is the snapshot kept per transfer. The numeric fields are
  JavaScript numbers that only ever hold byte counts; \<open>startTime\<close> is a \<^verbatim>\<open>Date\<close>,
  kept as its millisecond value. \<open>status\<close> is a plain string in the source.
\<close>

record DownloadProgress =
  fileName :: string
  fileSize :: nat
  downloadedBytes :: nat
  status :: string
  url :: string
  startTime :: nat

text \<open>
  \<^verbatim>\<open>MemStorage.downloadProgress\<close> is a JavaScript \<^verbatim>\<open>Map<string, DownloadProgress>\<close>:
  its entries are kept in insertion order, \<^verbatim>\<open>set\<close> on a key that is present replaces the
  value where it stands, \<^verbatim>\<open>set\<close> on a new key appends. That is an association list
  under \<open>AList.update\<close>. A \<^verbatim>\<open>Map\<close> never holds a key twice; \<open>wellformed\<close> states that,
  together with the fact that every record sits under its own \<open>url\<close> (the only caller of
  \<^verbatim>\<open>updateDownloadProgress\<close>, \<^verbatim>\<open>handleDownload\<close>, always passes a record whose \<open>url\<close> is
  the key).
\<close>

type_synonym store = "(string \<times> DownloadProgress) list"

definition wellformed :: "store \<Rightarrow> bool" where
  "wellformed s = (distinct (map fst s) \<and> list_all (\<lambda>(k, p). url p = k) s)"

definition updateDownloadProgress :: "string \<Rightarrow> DownloadProgress \<Rightarrow> store \<Rightarrow> store" where
  "updateDownloadProgress u progress s = AList.update u progress s"

definition getActiveDownloads :: "store \<Rightarrow> DownloadProgress list" where
  "getActiveDownloads s = map snd s"

text \<open>
  \<^verbatim>\<open>stopAllDownloads\<close> walks \<^verbatim>\<open>entries()\<close> and, for each entry, calls \<^verbatim>\<open>set\<close> with the same
  key and the record spread with \<^verbatim>\<open>status: 'stopped'\<close>. There is no test of the status
  the record had.
\<close>

definition stopAllDownloads :: "store \<Rightarrow> store" where
  "stopAllDownloads s =
     fold (\<lambda>(u, progress) m. AList.update u (progress\<lparr>status := ''stopped''\<rparr>) m) s s"

section \<open>Paths (Node's POSIX \<^verbatim>\<open>path\<close> module, as server/downloader.ts uses it)\<close>

text \<open>
  \<^verbatim>\<open>path.basename(p)\<close> drops trailing slashes and returns what follows the last
  remaining slash; it is the empty string when nothing but slashes is left.
\<close>

definition basename :: "string \<Rightarrow> string" where
  "basename p =
     rev (takeWhile (\<lambda>c. c \<noteq> CHR ''/'') (dropWhile (\<lambda>c. c = CHR ''/'') (rev p)))"

fun splitSlash :: "string \<Rightarrow> string list" where
  "splitSlash [] = [[]]"
| "splitSlash (c # cs) =
     (if c = CHR ''/'' then [] # splitSlash cs
      else (case splitSlash cs of [] \<Rightarrow> [[c]] | seg # segs \<Rightarrow> (c # seg) # segs))"

fun joinSlash :: "string list \<Rightarrow> string" where
  "joinSlash [] = []"
| "joinSlash [seg] = seg"
| "joinSlash (seg # segs) = seg @ CHR ''/'' # joinSlash segs"

text \<open>
  \<^verbatim>\<open>normalizeString\<close>, on the segments between slashes: empty segments and \<^verbatim>\<open>.\<close> are
  dropped, \<^verbatim>\<open>..\<close> removes the segment before it; at the start of a relative path
  (\<open>allowAboveRoot\<close>) \<^verbatim>\<open>..\<close> is kept, at the root of an absolute path it is dropped. The
  accumulator holds the result so far, last segment first.
\<close>

fun normalizeSegs :: "bool \<Rightarrow> string list \<Rightarrow> string list \<Rightarrow> string list" where
  "normalizeSegs allowAboveRoot acc [] = rev acc"
| "normalizeSegs allowAboveRoot acc (seg # segs) =
     (if seg = [] \<or> seg = ''.'' then normalizeSegs allowAboveRoot acc segs
      else if seg = ''..'' then
        (case acc of
           [] \<Rightarrow> normalizeSegs allowAboveRoot (if allowAboveRoot then [''..''] else []) segs
         | t # ts \<Rightarrow>
             if t = ''..''
             then normalizeSegs allowAboveRoot (if allowAboveRoot then ''..'' # acc else acc) segs
             else normalizeSegs allowAboveRoot ts segs)
      else normalizeSegs allowAboveRoot (seg # acc) segs)"

definition normalizePath :: "string \<Rightarrow> string" where
  "normalizePath p =
     (if p = [] then ''.''
      else
        let isAbsolute = (hd p = CHR ''/'');
            trailingSeparator = (last p = CHR ''/'');
            q = joinSlash (normalizeSegs (\<not> isAbsolute) [] (splitSlash p))
        in if q = [] then (if isAbsolute then ''/'' else if trailingSeparator then ''./'' else ''.'')
           else (if isAbsolute then ''/'' else []) @ q @ (if trailingSeparator then ''/'' else []))"

text \<open>\<^verbatim>\<open>path.join(a, b)\<close>: empty arguments are skipped, the rest joined by a slash and normalised.\<close>

definition join :: "string \<Rightarrow> string \<Rightarrow> string" where
  "join a b =
     (if a = [] \<and> b = [] then ''.''
      else normalizePath (if a = [] then b else if b = [] then a else a @ CHR ''/'' # b))"

text \<open>\<^verbatim>\<open>DOWNLOAD_DIR = path.join(process.cwd(), 'downloads')\<close>; the working directory is a parameter.\<close>

definition DOWNLOAD_DIR :: "string \<Rightarrow> string" where
  "DOWNLOAD_DIR cwd = join cwd ''downloads''"

section \<open>The download manager (server/downloader.ts)\<close>

type_synonym byte = "8 word"

text \<open>The files on disk: a path either holds a file with its bytes or holds nothing.\<close>

type_synonym files = "string \<rightharpoonup> byte list"

record world =
  progressStore :: store
  disk :: files

datatype error = Error string

text \<open>
  What a caller of \<^verbatim>\<open>handleDownload\<close> can be left with instead of a result: the promise
  rejects with an error, or the process exits on an uncaught exception and the promise
  never settles.
\<close>

datatype failure = Rejected error | ProcessExit error

record DownloadResult =
  filePath :: string
  res_fileName :: string
  res_fileSize :: nat

text \<open>
  What the network and the rest of the process do during one fetch is the input of the
  model. After the response headers the body arrives as \<^verbatim>\<open>'data'\<close> events. Between two
  of them any other handler of the process may run; the progress map has two writers in
  the source: \<^verbatim>\<open>stopAllDownloads\<close>, and \<^verbatim>\<open>updateDownloadProgress\<close> called by another run
  of \<^verbatim>\<open>handleDownload\<close> (nothing keeps two fetches of one URL apart, and both write the
  same key). \<open>Put p\<close> is such a foreign call, \<^verbatim>\<open>updateDownloadProgress(url, p)\<close> with the
  URL that \<open>p\<close> carries, as every call in \<^verbatim>\<open>handleDownload\<close> is made. The
  stream then either ends, so that \<^verbatim>\<open>pipeline\<close> resolves, or breaks, so that \<^verbatim>\<open>pipeline\<close>
  rejects with an error carrying a message.
\<close>

datatype event = Data "byte list" | StopAll | Put DownloadProgress

datatype ending = Finished | Broken string

text \<open>
  The response: the \<^verbatim>\<open>content-disposition\<close> header if present; the number that
  \<^verbatim>\<open>parseInt\<close> returns for the \<^verbatim>\<open>content-length\<close> header if present (a JavaScript
  number: for a header above \<open>2^53\<close> it is the nearest double, and byte counts are
  taken to stay below that bound, where JavaScript numbers are exact; a header that
  \<^verbatim>\<open>parseInt\<close> cannot read gives \<^verbatim>\<open>NaN\<close>, and such responses are left out); whether
  \<^verbatim>\<open>createWriteStream\<close> fails to open the destination, and with which message; the
  events that happen until \<^verbatim>\<open>pipeline\<close> settles; how the source stream ends; and the clock
  value that \<^verbatim>\<open>new Date()\<close> returns.
\<close>

record Response =
  contentDisposition :: "string option"
  contentLengthHeader :: "nat option"
  openFailure :: "string option"
  body :: "event list"
  ending :: ending
  clock :: nat

datatype exchange = MkdirFails string | RequestFails string | Responds Response

text \<open>
  \<^verbatim>\<open>contentDisposition.match(/filename="?([^"]+)"?/)\<close>: the first place where
  \<^verbatim>\<open>filename=\<close> stands, followed by an optional double quote and at least one character
  that is not a double quote; the group is the longest run of such characters. Where
  the run is empty with the quote consumed it is empty without it as well, so the search
  moves on to the next place.
\<close>

fun matchFilename :: "string \<Rightarrow> string option" where
  "matchFilename [] = None"
| "matchFilename (c # cs) =
     (if take 9 (c # cs) = ''filename='' then
        (let after = drop 9 (c # cs);
             unquoted = (case after of [] \<Rightarrow> [] | q # r \<Rightarrow> if q = CHR 0x22 then r else after);
             name = takeWhile (\<lambda>x. x \<noteq> CHR 0x22) unquoted
         in if name \<noteq> [] then Some name else matchFilename cs)
      else matchFilename cs)"

definition resolveFileName :: "string \<Rightarrow> string option \<Rightarrow> string" where
  "resolveFileName u disposition =
     (case disposition of
        None \<Rightarrow> basename u
      | Some cd \<Rightarrow>
          if cd = [] then basename u
          else (case matchFilename cd of None \<Rightarrow> basename u | Some name \<Rightarrow> name))"

definition destination :: "string \<Rightarrow> string \<Rightarrow> string option \<Rightarrow> string" where
  "destination cwd u disposition = join (DOWNLOAD_DIR cwd) (resolveFileName u disposition)"

text \<open>\<^verbatim>\<open>parseInt(response.headers['content-length'] || '0', 10)\<close>.\<close>

definition announced :: "Response \<Rightarrow> nat" where
  "announced response = (case contentLengthHeader response of None \<Rightarrow> 0 | Some n \<Rightarrow> n)"

text \<open>The record that \<^verbatim>\<open>handleDownload\<close> builds first and spreads into every later write.\<close>

definition initialProgress :: "string \<Rightarrow> Response \<Rightarrow> DownloadProgress" where
  "initialProgress u response =
     \<lparr>fileName = resolveFileName u (contentDisposition response), fileSize = announced response,
      downloadedBytes = 0, status = ''downloading'', url = u, startTime = clock response\<rparr>"

text \<open>
  The state of the body loop: the local counter \<^verbatim>\<open>downloadedBytes\<close>, whether the
  listener has destroyed the stream, the store and the disk, and a journal of the store
  after each call that writes it (the values a reader of the store can see, in order).
\<close>

record stream =
  counter :: nat
  destroyed :: bool
  progressMap :: store
  onDisk :: files
  journal :: "store list"

definition stoppedInStore :: "string \<Rightarrow> store \<Rightarrow> bool" where
  "stoppedInStore u s =
     (case find (\<lambda>d. url d = u) (getActiveDownloads s) of
        None \<Rightarrow> False
      | Some currentProgress \<Rightarrow> status currentProgress = ''stopped'')"

text \<open>
  The write stream writes each chunk at its own position, which is the number of bytes
  it has written before; a gap is filled with zero bytes. For the only stream on a file
  this appends the chunk. A file that has been removed meanwhile is not brought back by
  a write.
\<close>

definition writeAt :: "nat \<Rightarrow> byte list \<Rightarrow> byte list \<Rightarrow> byte list" where
  "writeAt offset chunk old =
     take offset old @ replicate (offset - length old) 0 @ chunk
       @ drop (offset + length chunk) old"

definition writeChunk :: "string \<Rightarrow> nat \<Rightarrow> byte list \<Rightarrow> files \<Rightarrow> files" where
  "writeChunk path offset chunk fs =
     (case fs path of None \<Rightarrow> fs | Some old \<Rightarrow> fs(path \<mapsto> writeAt offset chunk old))"

text \<open>
  The \<^verbatim>\<open>'data'\<close> listener on one chunk. The chunk adds its length to the counter; then
  the store is read, and when the record of this URL says \<^verbatim>\<open>stopped\<close> the stream is
  destroyed and nothing is written; otherwise the store gets the initial record with the
  new count and status \<^verbatim>\<open>downloading\<close>, and the pipeline writes the chunk to the file if
  the write stream could open it.
\<close>

definition onChunk ::
  "string \<Rightarrow> string \<Rightarrow> bool \<Rightarrow> DownloadProgress \<Rightarrow> byte list \<Rightarrow> stream \<Rightarrow> stream" where
  "onChunk u path writable progress chunk z =
     (let n = counter z + length chunk
      in if stoppedInStore u (progressMap z) then z\<lparr>counter := n, destroyed := True\<rparr>
         else
           let s = updateDownloadProgress u
                     (progress\<lparr>downloadedBytes := n, status := ''downloading''\<rparr>) (progressMap z)
           in z\<lparr>counter := n, progressMap := s,
                 onDisk := (if writable then writeChunk path (counter z) chunk (onDisk z)
                            else onDisk z),
                 journal := journal z @ [s]\<rparr>)"

text \<open>One event: a chunk for the listener, or a write of the store by another handler.\<close>

definition onEvent ::
  "string \<Rightarrow> string \<Rightarrow> bool \<Rightarrow> DownloadProgress \<Rightarrow> event \<Rightarrow> stream \<Rightarrow> stream" where
  "onEvent u path writable progress e z =
     (case e of
        Data chunk \<Rightarrow> onChunk u path writable progress chunk z
      | StopAll \<Rightarrow>
          (let s = stopAllDownloads (progressMap z)
           in z\<lparr>progressMap := s, journal := journal z @ [s]\<rparr>)
      | Put p \<Rightarrow>
          (let s = updateDownloadProgress (url p) p (progressMap z)
           in z\<lparr>progressMap := s, journal := journal z @ [s]\<rparr>))"

text \<open>
  The events in arrival order. Events after the stream is destroyed do not reach the
  listener, and the fetch is over.
\<close>

fun onData ::
  "string \<Rightarrow> string \<Rightarrow> bool \<Rightarrow> DownloadProgress \<Rightarrow> event list \<Rightarrow> stream \<Rightarrow> stream" where
  "onData u path writable progress [] z = z"
| "onData u path writable progress (e # es) z =
     (let z1 = onEvent u path writable progress e z
      in if destroyed z1 then z1 else onData u path writable progress es z1)"

text \<open>
  When the listener finds the record stopped it calls \<^verbatim>\<open>response.data.destroy()\<close> and
  then throws \<^verbatim>\<open>new Error('Download stopped by user')\<close>. The throw happens inside the
  stream's \<^verbatim>\<open>emit\<close>, outside the \<^verbatim>\<open>try\<close> blocks and the promise of \<^verbatim>\<open>handleDownload\<close>:
  it is an uncaught exception. No handler for uncaught exceptions is in the sources, and
  without one the process exits there. Where the process is kept alive, \<^verbatim>\<open>pipeline\<close>
  rejects with the message below, since its source was destroyed without an error.
  Whether the process survives an uncaught exception is the parameter \<open>survives\<close> of
  \<^verbatim>\<open>handleDownload\<close>.
\<close>

definition stoppedByUser :: string where
  "stoppedByUser = ''Download stopped by user''"

definition prematureClose :: string where
  "prematureClose = ''Premature close''"

text \<open>
  downloader.ts imports \<^verbatim>\<open>unlink\<close> from \<^verbatim>\<open>'fs'\<close> (line 2), the callback interface, and
  calls it as \<^verbatim>\<open>await unlink(filePath)\<close>, with no callback. Node checks the callback
  before it touches the file and throws a \<^verbatim>\<open>TypeError\<close>; the file stays. (The chat
  handlers import \<^verbatim>\<open>unlink\<close> from \<^verbatim>\<open>'fs/promises'\<close>, modelled by \<open>unlinkPromise\<close> below.)
\<close>

definition invalidCallback :: string where
  "invalidCallback = ''The '' @ [CHR 0x22] @ ''cb'' @ [CHR 0x22] @
     '' argument must be of type function. Received undefined''"

definition unlink :: "string \<Rightarrow> files \<Rightarrow> error + files" where
  "unlink path fs = Inl (Error invalidCallback)"

definition existsSync :: "string \<Rightarrow> files \<Rightarrow> bool" where
  "existsSync path fs = (fs path \<noteq> None)"

text \<open>
  The inner \<^verbatim>\<open>catch\<close> of \<^verbatim>\<open>handleDownload\<close>: it returns the error that leaves the block
  and the disk it leaves behind.
\<close>

definition cleanup :: "string \<Rightarrow> error \<Rightarrow> files \<Rightarrow> error \<times> files" where
  "cleanup path err fs =
     (if existsSync path fs then
        (case unlink path fs of Inl thrown \<Rightarrow> (thrown, fs) | Inr fs' \<Rightarrow> (err, fs'))
      else (err, fs))"

text \<open>The outer \<^verbatim>\<open>catch\<close>: every error leaves as a new \<^verbatim>\<open>Error\<close> with a prefixed message.\<close>

definition failedToDownload :: "error \<Rightarrow> error" where
  "failedToDownload e = (case e of Error m \<Rightarrow> Error (''Failed to download file: '' @ m))"

text \<open>
  The start of \<^verbatim>\<open>handleDownload\<close> once the response is there: \<^verbatim>\<open>createWriteStream\<close>
  creates the destination file, or empties it when it is there, unless it fails to open
  it; the initial record goes into the store.
\<close>

definition openDestination :: "string \<Rightarrow> Response \<Rightarrow> files \<Rightarrow> files" where
  "openDestination path response fs =
     (if openFailure response = None then fs(path \<mapsto> []) else fs)"

text \<open>
  What \<^verbatim>\<open>await pipeline(response.data, writer)\<close> ends with: nothing, or the error it
  rejects with. A destroyed source comes first, then a write stream that could not open
  its file, then the way the source stream ends.
\<close>

definition pipelineError :: "Response \<Rightarrow> bool \<Rightarrow> error option" where
  "pipelineError response wasDestroyed =
     (if wasDestroyed then Some (Error prematureClose)
      else (case openFailure response of
              Some m \<Rightarrow> Some (Error m)
            | None \<Rightarrow> (case ending response of Finished \<Rightarrow> None | Broken m \<Rightarrow> Some (Error m))))"

text \<open>The value that \<^verbatim>\<open>handleDownload\<close> returns.\<close>

definition downloadResult :: "string \<Rightarrow> string \<Rightarrow> Response \<Rightarrow> DownloadResult" where
  "downloadResult path u response =
     \<lparr>filePath = path, res_fileName = resolveFileName u (contentDisposition response),
      res_fileSize = announced response\<rparr>"

text \<open>
  The end of \<^verbatim>\<open>handleDownload\<close> once \<^verbatim>\<open>pipeline\<close> has settled: on an error the inner and
  the outer \<^verbatim>\<open>catch\<close>, with no write of the store; otherwise the final write of the
  store and the result.
\<close>

definition settle ::
  "string \<Rightarrow> string \<Rightarrow> Response \<Rightarrow> bool \<Rightarrow> world \<Rightarrow> (error + DownloadResult) \<times> world" where
  "settle u path response wasDestroyed w =
     (case pipelineError response wasDestroyed of
        Some err \<Rightarrow>
          (let (thrown, fs) = cleanup path err (disk w)
           in (Inl (failedToDownload thrown), w\<lparr>disk := fs\<rparr>))
      | None \<Rightarrow>
          (Inr (downloadResult path u response),
           w\<lparr>progressStore :=
                updateDownloadProgress u
                  ((initialProgress u response)
                     \<lparr>downloadedBytes := announced response, status := ''completed''\<rparr>)
                  (progressStore w)\<rparr>))"

text \<open>
  \<^verbatim>\<open>handleDownload(url)\<close>, given whether the process survives an uncaught exception, the
  working directory, what the network and the other handlers do, and the store and disk
  it starts from. It returns what the caller is left with, the store and disk at that
  moment (after a process exit the disk is what remains), and the journal of the store
  values it made readable.
\<close>

definition handleDownload ::
  "bool \<Rightarrow> string \<Rightarrow> exchange \<Rightarrow> string \<Rightarrow> world \<Rightarrow>
   (failure + DownloadResult) \<times> world \<times> store list" where
  "handleDownload survives cwd net u w =
     (case net of
        MkdirFails m \<Rightarrow> (Inl (Rejected (failedToDownload (Error m))), w, [])
      | RequestFails m \<Rightarrow> (Inl (Rejected (failedToDownload (Error m))), w, [])
      | Responds response \<Rightarrow>
          let path = destination cwd u (contentDisposition response);
              progress = initialProgress u response;
              s0 = updateDownloadProgress u progress (progressStore w);
              z = onData u path (openFailure response = None) progress (body response)
                    \<lparr>counter = 0, destroyed = False, progressMap = s0,
                     onDisk = openDestination path response (disk w), journal = [s0]\<rparr>;
              w1 = \<lparr>progressStore = progressMap z, disk = onDisk z\<rparr>
          in if destroyed z \<and> \<not> survives
             then (Inl (ProcessExit (Error stoppedByUser)), w1, journal z)
             else (case settle u path response (destroyed z) w1 of
                     (Inl e, w2) \<Rightarrow> (Inl (Rejected e), w2, journal z)
                   | (Inr r, w2) \<Rightarrow> (Inr r, w2, journal z @ [progressStore w2])))"

section \<open>The file splitter\<close>

text \<open>
  Modelled from the spec: \<^verbatim>\<open>splitFile\<close> of server/file-splitter.ts, which the chat
  handlers import and call, is not among the sources. The spec's File Splitter reads
  the source file sequentially and writes successive chunks of exactly \<open>maxPartBytes\<close>
  bytes, the final one possibly shorter, as part files with a dense 1-based index,
  returned in index order. A part file is represented by its index and the bytes written
  to it. The spec speaks of positive \<open>maxPartBytes\<close> only; with 0 the definition
  returns no part, for totality.
\<close>

function chunksOf :: "nat \<Rightarrow> 'a list \<Rightarrow> 'a list list" where
  "chunksOf maxPartBytes xs =
     (if maxPartBytes = 0 \<or> xs = [] then []
      else take maxPartBytes xs # chunksOf maxPartBytes (drop maxPartBytes xs))"
  by pat_completeness auto
termination
  by (relation "measure (\<lambda>(m, xs). length xs)") auto

declare chunksOf.simps [simp del]

record PartFile =
  index :: nat
  content :: "byte list"

fun numbered :: "nat \<Rightarrow> byte list list \<Rightarrow> PartFile list" where
  "numbered i [] = []"
| "numbered i (c # cs) = \<lparr>index = i, content = c\<rparr> # numbered (Suc i) cs"

definition split :: "byte list \<Rightarrow> nat \<Rightarrow> PartFile list" where
  "split file maxPartBytes = numbered 1 (chunksOf maxPartBytes file)"

text \<open>Reassembly as the spec's PartFile describes it: the parts' bytes, concatenated in index order.\<close>

definition reassemble :: "PartFile list \<Rightarrow> byte list" where
  "reassemble parts = concat (map content (sort_key index parts))"

text \<open>
  Modelled from the spec: \<^verbatim>\<open>splitFile(filePath)\<close> as the handlers call it, with the part
  size a parameter (the handlers pass none); it fails with a \<^verbatim>\<open>SplitError\<close> when the
  source cannot be read.
\<close>

definition splitFile :: "nat \<Rightarrow> string \<Rightarrow> files \<Rightarrow> error + PartFile list" where
  "splitFile maxPartBytes path fs =
     (case fs path of
        None \<Rightarrow> Inl (Error (''SplitError: cannot read '' @ path))
      | Some file \<Rightarrow> Inr (split file maxPartBytes))"

section \<open>The chat handlers that deliver downloads (\<^verbatim>\<open>.mdl\<close> and \<^verbatim>\<open>.dl\<close>)\<close>

text \<open>
  What \<^verbatim>\<open>sock.sendMessage\<close> is given: a text, a reaction, or a document with its
  \<^verbatim>\<open>fileName\<close>, \<^verbatim>\<open>caption\<close> and \<^verbatim>\<open>mimetype\<close>. The chat and the quoted message are the
  same in every call of a handler and are left out. The transport is a parameter: for
  each payload it either accepts it or throws an error with a message.
\<close>

datatype outgoing = Text string | React string | Document "byte list" string string string

type_synonym socket = "outgoing \<Rightarrow> string option"

record chat =
  machine :: world
  outbox :: "outgoing list"



fun decimal :: "nat \<Rightarrow> string" where
  "decimal n = (if n < 10 then [char_of (48 + n)] else decimal (n div 10) @ [char_of (48 + n mod 10)])"

declare decimal.simps [simp del]

text \<open>
  \<^verbatim>\<open>fs.readFile\<close> of \<^verbatim>\<open>'fs/promises'\<close> (the handlers import \<^verbatim>\<open>promises as fs\<close>). It rejects
  when no file is there, and it rejects a file of more than \<open>2^31 - 1\<close> bytes
  (\<^verbatim>\<open>ERR_FS_FILE_TOO_LARGE\<close>) without reading it.
\<close>

definition ioMaxLength :: nat where
  "ioMaxLength = 2 ^ 31 - 1"

definition readBytes :: "byte list \<Rightarrow> error + byte list" where
  "readBytes bytes =
     (if length bytes > ioMaxLength
      then Inl (Error (''File size ('' @ decimal (length bytes) @ '') is greater than 2 GiB''))
      else Inr bytes)"

definition readFile :: "string \<Rightarrow> files \<Rightarrow> error + byte list" where
  "readFile path fs =
     (case fs path of
        None \<Rightarrow> Inl (Error (''ENOENT: no such file or directory, open '' @ path))
      | Some bytes \<Rightarrow> readBytes bytes)"

text \<open>\<^verbatim>\<open>unlink\<close> of \<^verbatim>\<open>'fs/promises'\<close>, which the handlers import.\<close>

definition unlinkPromise :: "string \<Rightarrow> files \<Rightarrow> error + files" where
  "unlinkPromise path fs =
     (case fs path of
        None \<Rightarrow> Inl (Error (''ENOENT: no such file or directory, unlink '' @ path))
      | Some bytes \<Rightarrow> Inr (fs(path := None)))"

definition crossMark :: string where "crossMark = [CHR 0xE2, CHR 0x9D, CHR 0x8C]"
definition checkMark :: string where "checkMark = [CHR 0xE2, CHR 0x9C, CHR 0x85]"
definition inboxTray :: string where "inboxTray = [CHR 0xF0, CHR 0x9F, CHR 0x93, CHR 0xA5]"
definition hammerAndPick :: string where
  "hammerAndPick = [CHR 0xE2, CHR 0x9A, CHR 0x92, CHR 0xEF, CHR 0xB8, CHR 0x8F]"
definition paperclips :: string where
  "paperclips = [CHR 0xF0, CHR 0x9F, CHR 0x96, CHR 0x87, CHR 0xEF, CHR 0xB8, CHR 0x8F]"
definition sparkles :: string where "sparkles = [CHR 0xE2, CHR 0x9C, CHR 0xA8]"
definition newline :: string where "newline = [CHR 0x0A]"
definition octetStream :: string where "octetStream = ''application/octet-stream''"

definition splitThreshold :: nat where
  "splitThreshold = 2 * 1024 * 1024 * 1024"

text \<open>The payloads that both handlers build the same way.\<close>

definition wholeDocument :: "DownloadResult \<Rightarrow> byte list \<Rightarrow> outgoing" where
  "wholeDocument r bytes =
     Document bytes (res_fileName r) (paperclips @ '' *'' @ res_fileName r @ ''*'') octetStream"

definition partDocument :: "string \<Rightarrow> nat \<Rightarrow> nat \<Rightarrow> byte list \<Rightarrow> outgoing" where
  "partDocument name totalParts j bytes =
     Document bytes (name @ ''.part'' @ decimal (j + 1))
       (paperclips @ '' *'' @ name @ ''*'' @ newline @ ''_(Part '' @ decimal (j + 1) @
        '' of '' @ decimal totalParts @ '')_'')
       octetStream"

subsection \<open>The \<^verbatim>\<open>.dl\<close> handler\<close>







subsection \<open>The \<^verbatim>\<open>.mdl\<close> handler\<close>

text \<open>
  \<^verbatim>\<open>.mdl\<close> maps one \<^verbatim>\<open>async\<close> closure over the URLs and awaits \<^verbatim>\<open>Promise.all\<close> of them:
  the closures are all started and run interleaved, each one advancing from one
  \<^verbatim>\<open>await\<close> to the next while the others wait. What they share is the store, the disk,
  the transport, \<^verbatim>\<open>successCount\<close> and \<^verbatim>\<open>failedUrls\<close>; \<open>exited\<close> tells whether the
  process has ended, and \<open>settled\<close> holds the first rejection among the closures,
  with which \<^verbatim>\<open>Promise.all\<close> rejects.
\<close>

record batch = chat +
  successCount :: nat
  failedUrls :: "(string \<times> string) list"
  exited :: "error option"
  settled :: "error option"

datatype itemResult = Success string | Failure string string

text \<open>
  Where a closure stands, with the local values it holds there. Inside
  \<^verbatim>\<open>handleDownload\<close>: before \<^verbatim>\<open>mkdir\<close>; before the request; in the body, with the
  response, the initial record, the destination, the counter and the events to come;
  after the listener destroyed the stream. Then with the result: before the first
  delivery step; before \<^verbatim>\<open>splitFile\<close>; before reading part \<open>j\<close> (with the number of
  parts and the parts from \<open>j\<close> on); before sending part \<open>j\<close> (with its bytes and the
  parts after it); before sending the whole file (with its bytes); before the removal of
  the download; before the increment of \<^verbatim>\<open>successCount\<close>; before the success notice.
  In the \<^verbatim>\<open>catch\<close>: before the push onto \<^verbatim>\<open>failedUrls\<close>; before the failure notice.
  At the end: returned, or rejected.
\<close>

datatype phase =
    Start
  | Requesting
  | Streaming Response DownloadProgress string nat "event list"
  | Destroyed Response string
  | Obtained DownloadResult
  | Splitting DownloadResult
  | ReadingPart DownloadResult nat nat "PartFile list"
  | SendingPart DownloadResult nat nat "byte list" "PartFile list"
  | SendingWhole DownloadResult "byte list"
  | Removing DownloadResult
  | Counting DownloadResult
  | Notifying DownloadResult
  | Thrown error
  | Reporting string
  | Returned itemResult
  | Refused error

text \<open>
  A closure: its position in the URL list, its URL, what the network does for it, where
  it stands, and a record of the messages it has sent so far.
\<close>

record closure =
  position :: nat
  target :: string
  exchange :: exchange
  phase :: phase
  mine :: "outgoing list"

text \<open>The notices of a closure.\<close>

definition successNotice :: "nat \<Rightarrow> nat \<Rightarrow> string \<Rightarrow> outgoing" where
  "successNotice i howMany name =
     Text (checkMark @ '' Successfully downloaded ('' @ decimal (i + 1) @ ''/'' @
           decimal howMany @ ''): '' @ name)"

definition failureNotice :: "nat \<Rightarrow> nat \<Rightarrow> string \<Rightarrow> string \<Rightarrow> outgoing" where
  "failureNotice i howMany u m =
     Text (crossMark @ '' Failed to download ('' @ decimal (i + 1) @ ''/'' @
           decimal howMany @ ''): '' @ u @ newline @ ''Error: '' @ m)"

definition splittingNotice :: "string \<Rightarrow> outgoing" where
  "splittingNotice name = Text (hammerAndPick @ '' Splitting large file: '' @ name)"

definition goTo :: "phase \<Rightarrow> closure \<Rightarrow> batch \<Rightarrow> closure \<times> batch" where
  "goTo next t b = (t\<lparr>phase := next\<rparr>, b)"

text \<open>An awaited \<^verbatim>\<open>sock.sendMessage\<close> inside the \<^verbatim>\<open>try\<close>: on a throw the \<^verbatim>\<open>catch\<close> is next.\<close>

definition deliver :: "socket \<Rightarrow> outgoing \<Rightarrow> phase \<Rightarrow> closure \<Rightarrow> batch \<Rightarrow> closure \<times> batch" where
  "deliver sock msg next t b =
     (case sock msg of
        Some m \<Rightarrow> (t\<lparr>phase := Thrown (Error m)\<rparr>, b)
      | None \<Rightarrow> (t\<lparr>phase := next, mine := mine t @ [msg]\<rparr>, b\<lparr>outbox := outbox b @ [msg]\<rparr>))"

text \<open>
  One closure advances to its next \<^verbatim>\<open>await\<close> (or to its end). The steps inside
  \<^verbatim>\<open>handleDownload\<close> are those of the section above, on the shared store and disk; a
  rejection of \<^verbatim>\<open>handleDownload\<close> or of any later awaited call leads to the \<^verbatim>\<open>catch\<close>.
  The unlink of a part file changes nothing that the model holds and has no step of its
  own. The increment of \<^verbatim>\<open>successCount\<close> and the push onto \<^verbatim>\<open>failedUrls\<close> are steps of
  their own, although the source runs each together with the call that follows it: every
  interleaving of the source is one of the model's, which has some more.
\<close>

definition advance ::
  "bool \<Rightarrow> string \<Rightarrow> socket \<Rightarrow> nat \<Rightarrow> nat \<Rightarrow> closure \<Rightarrow> batch \<Rightarrow> closure \<times> batch" where
  "advance survives cwd sock maxPartBytes howMany t b =
     (case phase t of
        Start \<Rightarrow>
          (case exchange t of
             MkdirFails m \<Rightarrow> goTo (Thrown (failedToDownload (Error m))) t b
           | _ \<Rightarrow> goTo Requesting t b)
      | Requesting \<Rightarrow>
          (case exchange t of
             MkdirFails m \<Rightarrow> goTo (Thrown (failedToDownload (Error m))) t b
           | RequestFails m \<Rightarrow> goTo (Thrown (failedToDownload (Error m))) t b
           | Responds response \<Rightarrow>
               (let path = destination cwd (target t) (contentDisposition response);
                    progress = initialProgress (target t) response
                in (t\<lparr>phase := Streaming response progress path 0 (body response)\<rparr>,
                    b\<lparr>machine :=
                        \<lparr>progressStore =
                           updateDownloadProgress (target t) progress (progressStore (machine b)),
                         disk = openDestination path response (disk (machine b))\<rparr>\<rparr>)))
      | Streaming response progress path n [] \<Rightarrow>
          (case settle (target t) path response False (machine b) of
             (Inl e, w) \<Rightarrow> (t\<lparr>phase := Thrown e\<rparr>, b\<lparr>machine := w\<rparr>)
           | (Inr r, w) \<Rightarrow> (t\<lparr>phase := Obtained r\<rparr>, b\<lparr>machine := w\<rparr>))
      | Streaming response progress path n (e # es) \<Rightarrow>
          (let z = onEvent (target t) path (openFailure response = None) progress e
                     \<lparr>counter = n, destroyed = False, progressMap = progressStore (machine b),
                      onDisk = disk (machine b), journal = []\<rparr>;
               b1 = b\<lparr>machine := \<lparr>progressStore = progressMap z, disk = onDisk z\<rparr>\<rparr>
           in if destroyed z then
                (if survives then (t\<lparr>phase := Destroyed response path\<rparr>, b1)
                 else (t, b1\<lparr>exited := Some (Error stoppedByUser)\<rparr>))
              else (t\<lparr>phase := Streaming response progress path (counter z) es\<rparr>, b1))
      | Destroyed response path \<Rightarrow>
          (case settle (target t) path response True (machine b) of
             (Inl e, w) \<Rightarrow> (t\<lparr>phase := Thrown e\<rparr>, b\<lparr>machine := w\<rparr>)
           | (Inr r, w) \<Rightarrow> (t\<lparr>phase := Obtained r\<rparr>, b\<lparr>machine := w\<rparr>))
      | Obtained r \<Rightarrow>
          (if res_fileSize r > splitThreshold
           then deliver sock (splittingNotice (res_fileName r)) (Splitting r) t b
           else (case readFile (filePath r) (disk (machine b)) of
                   Inl e \<Rightarrow> goTo (Thrown e) t b
                 | Inr bytes \<Rightarrow> goTo (SendingWhole r bytes) t b))
      | Splitting r \<Rightarrow>
          (case splitFile maxPartBytes (filePath r) (disk (machine b)) of
             Inl e \<Rightarrow> goTo (Thrown e) t b
           | Inr parts \<Rightarrow>
               (if parts = [] then goTo (Removing r) t b
                else goTo (ReadingPart r (length parts) 0 parts) t b))
      | ReadingPart r totalParts j parts \<Rightarrow>
          (case parts of
             [] \<Rightarrow> goTo (Removing r) t b
           | part # rest \<Rightarrow>
               (case readBytes (content part) of
                  Inl e \<Rightarrow> goTo (Thrown e) t b
                | Inr bytes \<Rightarrow> goTo (SendingPart r totalParts j bytes rest) t b))
      | SendingPart r totalParts j bytes rest \<Rightarrow>
          deliver sock (partDocument (res_fileName r) totalParts j bytes)
            (if rest = [] then Removing r else ReadingPart r totalParts (j + 1) rest) t b
      | SendingWhole r bytes \<Rightarrow> deliver sock (wholeDocument r bytes) (Removing r) t b
      | Removing r \<Rightarrow>
          (if existsSync (filePath r) (disk (machine b)) then
             (case unlinkPromise (filePath r) (disk (machine b)) of
                Inl e \<Rightarrow> goTo (Thrown e) t b
              | Inr fs \<Rightarrow> (t\<lparr>phase := Counting r\<rparr>, b\<lparr>machine := (machine b)\<lparr>disk := fs\<rparr>\<rparr>))
           else (t\<lparr>phase := Notifying r\<rparr>, b\<lparr>successCount := successCount b + 1\<rparr>))
      | Counting r \<Rightarrow> (t\<lparr>phase := Notifying r\<rparr>, b\<lparr>successCount := successCount b + 1\<rparr>)
      | Notifying r \<Rightarrow>
          deliver sock (successNotice (position t) howMany (res_fileName r))
            (Returned (Success (target t))) t b
      | Thrown e \<Rightarrow>
          (case e of
             Error m \<Rightarrow>
               (t\<lparr>phase := Reporting m\<rparr>, b\<lparr>failedUrls := failedUrls b @ [(target t, m)]\<rparr>))
      | Reporting m \<Rightarrow>
          (let msg = failureNotice (position t) howMany (target t) m
           in case sock msg of
                Some thrown \<Rightarrow>
                  (t\<lparr>phase := Refused (Error thrown)\<rparr>,
                   b\<lparr>settled := (case settled b of
                                    None \<Rightarrow> Some (Error thrown)
                                  | Some first \<Rightarrow> Some first)\<rparr>)
              | None \<Rightarrow>
                  (t\<lparr>phase := Returned (Failure (target t) m), mine := mine t @ [msg]\<rparr>,
                   b\<lparr>outbox := outbox b @ [msg]\<rparr>))
      | Returned result \<Rightarrow> (t, b)
      | Refused e \<Rightarrow> (t, b))"

text \<open>
  A schedule is the order in which the closures get their turns, by position. After an
  exit of the process nothing runs.
\<close>

fun interleave ::
  "bool \<Rightarrow> string \<Rightarrow> socket \<Rightarrow> nat \<Rightarrow> nat \<Rightarrow> nat list \<Rightarrow> closure list \<Rightarrow> batch \<Rightarrow>
   closure list \<times> batch" where
  "interleave survives cwd sock maxPartBytes howMany [] ts b = (ts, b)"
| "interleave survives cwd sock maxPartBytes howMany (i # schedule) ts b =
     (if i < length ts \<and> exited b = None then
        (let (t, b1) = advance survives cwd sock maxPartBytes howMany (ts ! i) b
         in interleave survives cwd sock maxPartBytes howMany schedule (ts[i := t]) b1)
      else interleave survives cwd sock maxPartBytes howMany schedule ts b)"

fun closures :: "nat \<Rightarrow> (string \<times> exchange) list \<Rightarrow> closure list" where
  "closures i [] = []"
| "closures i ((u, net) # requests) =
     \<lparr>position = i, target = u, exchange = net, phase = Start, mine = []\<rparr>
       # closures (i + 1) requests"

fun listing :: "nat \<Rightarrow> string list \<Rightarrow> string list" where
  "listing i [] = []"
| "listing i (u # us) = (decimal (i + 1) @ ''. '' @ u) # listing (i + 1) us"

fun joinWith :: "string \<Rightarrow> string list \<Rightarrow> string" where
  "joinWith sep [] = []"
| "joinWith sep [x] = x"
| "joinWith sep (x # xs) = x @ sep @ joinWith sep xs"

definition summaryText :: "nat \<Rightarrow> nat \<Rightarrow> (string \<times> string) list \<Rightarrow> string" where
  "summaryText succeeded howMany failed =
     sparkles @ '' *Download Summary*'' @ newline @ newline @
     checkMark @ '' Successfully downloaded: '' @ decimal succeeded @ ''/'' @ decimal howMany @
     newline @ newline @
     (if length failed > 0
      then crossMark @ '' Failed downloads:'' @ newline @
           joinWith (newline @ newline) (map (\<lambda>(u, m). u @ newline @ ''Error: '' @ m) failed)
      else [])"

definition noValidUrls :: string where
  "noValidUrls = crossMark @ '' No valid URLs found. Please provide at least one valid URL.'' @
     newline @ newline @ ''Example usage:'' @ newline @ ''.mdl https://example.com/file1'' @
     newline @ ''https://example.com/file2''"

definition startingText :: "string list \<Rightarrow> string" where
  "startingText urls =
     inboxTray @ '' Starting download of '' @ decimal (length urls) @ '' files...'' @
     newline @ newline @ joinWith newline (listing 0 urls)"

definition isReturned :: "closure \<Rightarrow> bool" where
  "isReturned t = (case phase t of Returned result \<Rightarrow> True | _ \<Rightarrow> False)"

text \<open>
  What the handler's promise ends with: it fulfils, it rejects, the process exits, or,
  when the schedule ends before every closure has, it is still waiting.
\<close>

datatype outcome = Fulfils | RejectsWith error | ExitsWith error | Waits

text \<open>
  The \<^verbatim>\<open>.mdl\<close> handler from the parsed URL list on: \<open>requests\<close> pairs each URL with what
  the network does for it. After the first message the closures run under the schedule;
  the summary is sent when all of them have returned. The result is what the handler's
  promise ends with, the closures and the state left.
\<close>

definition mdl ::
  "bool \<Rightarrow> string \<Rightarrow> socket \<Rightarrow> nat \<Rightarrow> (string \<times> exchange) list \<Rightarrow> nat list \<Rightarrow> chat \<Rightarrow>
   outcome \<times> closure list \<times> batch" where
  "mdl survives cwd sock maxPartBytes requests schedule c =
     (let b0 = \<lparr>machine = machine c, outbox = outbox c, successCount = 0, failedUrls = [],
                exited = None, settled = None\<rparr>
      in if length requests = 0 then
           (case sock (Text noValidUrls) of
              Some m \<Rightarrow> (RejectsWith (Error m), [], b0)
            | None \<Rightarrow> (Fulfils, [], b0\<lparr>outbox := outbox b0 @ [Text noValidUrls]\<rparr>))
         else
           (case sock (Text (startingText (map fst requests))) of
              Some m \<Rightarrow> (RejectsWith (Error m), [], b0)
            | None \<Rightarrow>
                (let (ts, b1) =
                       interleave survives cwd sock maxPartBytes (length requests) schedule
                         (closures 0 requests)
                         (b0\<lparr>outbox := outbox b0 @ [Text (startingText (map fst requests))]\<rparr>)
                 in (case exited b1 of
                       Some e \<Rightarrow> (ExitsWith e, ts, b1)
                     | None \<Rightarrow>
                         (case settled b1 of
                            Some e \<Rightarrow> (RejectsWith e, ts, b1)
                          | None \<Rightarrow>
                              if list_all isReturned ts then
                                (let msg = Text (summaryText (successCount b1) (length requests)
                                                   (failedUrls b1))
                                 in case sock msg of
                                      Some m \<Rightarrow> (RejectsWith (Error m), ts, b1)
                                    | None \<Rightarrow> (Fulfils, ts, b1\<lparr>outbox := outbox b1 @ [msg]\<rparr>))
                              else (Waits, ts, b1))))))"

section \<open>Predicates used in the statements\<close>

text \<open>A file name that \<^verbatim>\<open>path.join\<close> appends as it is: not empty, no slash, not \<^verbatim>\<open>.\<close> or \<^verbatim>\<open>..\<close>.\<close>

definition plainName :: "string \<Rightarrow> bool" where
  "plainName n = (n \<noteq> [] \<and> CHR ''/'' \<notin> set n \<and> n \<noteq> ''.'' \<and> n \<noteq> ''..'')"

text \<open>The bytes of the chunks among the events, and their number as the listener counts it.\<close>

fun payload :: "event list \<Rightarrow> byte list" where
  "payload [] = []"
| "payload (Data chunk # es) = chunk @ payload es"
| "payload (StopAll # es) = payload es"
| "payload (Put p # es) = payload es"

fun received :: "event list \<Rightarrow> nat" where
  "received [] = 0"
| "received (Data chunk # es) = length chunk + received es"
| "received (StopAll # es) = received es"
| "received (Put p # es) = received es"

definition isData :: "event \<Rightarrow> bool" where
  "isData e = (case e of Data chunk \<Rightarrow> True | _ \<Rightarrow> False)"

text \<open>
  No other run of \<^verbatim>\<open>handleDownload\<close> writes the record of \<open>u\<close> during the events: this
  fetch is the only one of its URL.
\<close>

definition soleWriter :: "string \<Rightarrow> event list \<Rightarrow> bool" where
  "soleWriter u es = list_all (\<lambda>e. case e of Put p \<Rightarrow> url p \<noteq> u | _ \<Rightarrow> True) es"

text \<open>
  A chunk arrives while the record says \<^verbatim>\<open>stopped\<close>: some \<open>StopAll\<close> is followed by a
  \<open>Data\<close> event. The flag tells whether the record is stopped at the start. (Writes
  of other records do not count; this is used for a sole writer only.)
\<close>

fun interrupted :: "bool \<Rightarrow> event list \<Rightarrow> bool" where
  "interrupted stopped [] = False"
| "interrupted stopped (StopAll # es) = interrupted True es"
| "interrupted stopped (Put p # es) = interrupted stopped es"
| "interrupted stopped (Data chunk # es) = (stopped \<or> interrupted False es)"

text \<open>
  The exchanges in which the fetch returns a result: a response whose body is not
  interrupted, whose destination could be opened, and whose stream ends.
\<close>

definition fetchSucceeds :: "exchange \<Rightarrow> bool" where
  "fetchSucceeds net =
     (case net of
        Responds response \<Rightarrow>
          \<not> interrupted False (body response) \<and> openFailure response = None \<and>
          ending response = Finished
      | _ \<Rightarrow> False)"

text \<open>The spec's terminal statuses, and the records readable under a URL along a journal.\<close>

definition terminal :: "DownloadProgress \<Rightarrow> bool" where
  "terminal p = (status p = ''completed'' \<or> status p = ''stopped'' \<or> status p = ''failed'')"

definition observed :: "string \<Rightarrow> store list \<Rightarrow> DownloadProgress list" where
  "observed u stores = List.map_filter (\<lambda>s. map_of s u) stores"

text \<open>A sequence of records from its start up to and including the first terminal one.\<close>

fun untilTerminal :: "DownloadProgress list \<Rightarrow> DownloadProgress list" where
  "untilTerminal [] = []"
| "untilTerminal (p # ps) = (if terminal p then [p] else p # untilTerminal ps)"

text \<open>
  What the body loop of a sole writer makes readable under its URL, event by event, when
  it starts with \<open>n\<close> bytes counted and the record not stopped: a chunk shows the new
  count; a write of another record shows the record as it is; a stop shows the count so
  far with status \<^verbatim>\<open>stopped\<close>, again at each further write of the store, until the next
  chunk destroys the stream.
\<close>

fun seen :: "DownloadProgress \<Rightarrow> nat \<Rightarrow> event list \<Rightarrow> DownloadProgress list" where
  "seen progress n [] = []"
| "seen progress n (Data chunk # es) =
     progress\<lparr>downloadedBytes := n + length chunk, status := ''downloading''\<rparr>
       # seen progress (n + length chunk) es"
| "seen progress n (Put p # es) =
     progress\<lparr>downloadedBytes := n, status := ''downloading''\<rparr> # seen progress n es"
| "seen progress n (StopAll # es) =
     replicate (Suc (length (takeWhile (\<lambda>e. \<not> isData e) es)))
       (progress\<lparr>downloadedBytes := n, status := ''stopped''\<rparr>)"


text \<open>
  The message of the error with which a fetch that does not succeed and is not cancelled
  rejects, given the file that was at its destination before (lemma
  \<open>handleDownload_rejects\<close> below): before the response the cause; after it the
  \<^verbatim>\<open>TypeError\<close> of \<^verbatim>\<open>unlink\<close> when a file is at the destination, and the cause when none
  is.
\<close>

definition rejection :: "byte list option \<Rightarrow> exchange \<Rightarrow> string" where
  "rejection before net =
     ''Failed to download file: '' @
       (case net of
          MkdirFails m \<Rightarrow> m
        | RequestFails m \<Rightarrow> m
        | Responds r \<Rightarrow>
            (case openFailure r of
               None \<Rightarrow> invalidCallback
             | Some m \<Rightarrow> if before = None then m else invalidCallback))"


section \<open>Batches without interference\<close>

text \<open>
  The conditions under which the closures of a batch do not get into each other's way,
  and what each closure then holds at each of its steps.
\<close>









definition large :: "exchange \<Rightarrow> bool" where
  "large net = (case net of Responds r \<Rightarrow> splitThreshold < announced r | _ \<Rightarrow> False)"









section \<open>Example inputs\<close>

definition finishedRecord :: DownloadProgress where
  "finishedRecord = \<lparr>fileName = ''f.bin'', fileSize = 3, downloadedBytes = 3,
     status = ''completed'', url = ''http://h/f.bin'', startTime = 7\<rparr>"

definition runningRecord :: DownloadProgress where
  "runningRecord = \<lparr>fileName = ''g.bin'', fileSize = 9, downloadedBytes = 4,
     status = ''downloading'', url = ''http://h/g.bin'', startTime = 8\<rparr>"

definition twoRecords :: store where
  "twoRecords = [(''http://h/f.bin'', finishedRecord), (''http://h/g.bin'', runningRecord)]"

definition emptyWorld :: world where
  "emptyWorld = \<lparr>progressStore = [], disk = Map.empty\<rparr>"

definition noLengthResponse :: Response where
  "noLengthResponse = \<lparr>contentDisposition = None, contentLengthHeader = None,
     openFailure = None, body = [Data [1, 2, 3]], ending = Finished, clock = 0\<rparr>"

definition exactResponse :: Response where
  "exactResponse = \<lparr>contentDisposition = None, contentLengthHeader = Some 4,
     openFailure = None, body = [Data [1, 2], Data [3, 4]], ending = Finished, clock = 0\<rparr>"

definition cancelledResponse :: Response where
  "cancelledResponse = \<lparr>contentDisposition = None, contentLengthHeader = Some 4,
     openFailure = None, body = [Data [1, 2], StopAll, Data [3, 4]], ending = Finished,
     clock = 0\<rparr>"

definition brokenResponse :: Response where
  "brokenResponse = \<lparr>contentDisposition = None, contentLengthHeader = Some 4,
     openFailure = None, body = [Data [1, 2]], ending = Broken ''socket hang up'', clock = 0\<rparr>"

definition stoppedThenBroken :: Response where
  "stoppedThenBroken = \<lparr>contentDisposition = None, contentLengthHeader = Some 4,
     openFailure = None, body = [Data [1, 2], StopAll], ending = Broken ''socket hang up'',
     clock = 0\<rparr>"









section \<open>Facts about the store\<close>

lemma update_past_prefix:
  "k \<notin> fst ` set pre \<Longrightarrow> AList.update k v (pre @ ys) = pre @ AList.update k v ys"
  by (induction pre) auto

lemma fold_update_fresh:
  "\<forall>k \<in> fst ` set xs. k \<notin> fst ` set pre \<Longrightarrow>
   fold (\<lambda>(u, p) m. AList.update u (f p) m) xs (pre @ ys) =
   pre @ fold (\<lambda>(u, p) m. AList.update u (f p) m) xs ys"
proof (induction xs arbitrary: ys)
  case Nil
  then show ?case by simp
next
  case (Cons x xs)
  obtain u p where x: "x = (u, p)" by (cases x)
  from Cons.prems x have "u \<notin> fst ` set pre" by simp
  then have "AList.update u (f p) (pre @ ys) = pre @ AList.update u (f p) ys"
    by (rule update_past_prefix)
  with Cons x show ?case by simp
qed

lemma fold_update_map:
  "distinct (map fst xs) \<Longrightarrow>
   fold (\<lambda>(u, p) m. AList.update u (f p) m) xs xs = map (\<lambda>(u, p). (u, f p)) xs"
proof (induction xs)
  case Nil
  then show ?case by simp
next
  case (Cons x xs)
  obtain u p where x: "x = (u, p)" by (cases x)
  from Cons.prems x have fresh: "\<forall>k \<in> fst ` set xs. k \<notin> fst ` set [(u, f p)]"
    and d: "distinct (map fst xs)" by auto
  have "fold (\<lambda>(u, p) m. AList.update u (f p) m) (x # xs) (x # xs)
      = fold (\<lambda>(u, p) m. AList.update u (f p) m) xs ([(u, f p)] @ xs)"
    using x by simp
  also have "\<dots> = [(u, f p)] @ fold (\<lambda>(u, p) m. AList.update u (f p) m) xs xs"
    using fresh by (rule fold_update_fresh)
  finally show ?case using Cons.IH [OF d] x by simp
qed

lemma stopAllDownloads_map:
  "distinct (map fst s) \<Longrightarrow>
   stopAllDownloads s = map (\<lambda>(u, p). (u, p\<lparr>status := ''stopped''\<rparr>)) s"
  unfolding stopAllDownloads_def by (rule fold_update_map)

text \<open>
  C3. \<^verbatim>\<open>stopAllDownloads\<close> (the spec's \<^verbatim>\<open>markAllStopped\<close>) sets the status to \<^verbatim>\<open>stopped\<close>
  for every record whose status is not \<^verbatim>\<open>completed\<close> and leaves completed records
  unchanged. The code has no test of the status: a completed record is set to
  \<^verbatim>\<open>stopped\<close> as well. Amended: \<^verbatim>\<open>stopAllDownloads\<close> sets the status of every record
  of the store to \<^verbatim>\<open>stopped\<close>, whatever it was.
\<close>

theorem stopAllDownloads_every_record:
  "distinct (map fst s) \<Longrightarrow>
   map (\<lambda>(k, p). status p) (stopAllDownloads s) = replicate (length s) ''stopped''"
  by (simp add: stopAllDownloads_map map_replicate_const case_prod_unfold o_def)

theorem stopAllDownloads_every_record_witness:
  "distinct (map fst twoRecords) \<and>
   map (\<lambda>(k, p). status p) (stopAllDownloads twoRecords) = [''stopped'', ''stopped'']"
  using stopAllDownloads_every_record [of twoRecords]
  by (simp add: twoRecords_def)

theorem stopAllDownloads_completed_counterexample:
  "status finishedRecord = ''completed'' \<and>
   map_of (stopAllDownloads [(''http://h/f.bin'', finishedRecord)]) ''http://h/f.bin''
     = Some (finishedRecord\<lparr>status := ''stopped''\<rparr>) \<and>
   finishedRecord\<lparr>status := ''stopped''\<rparr> \<noteq> finishedRecord"
  by (simp add: stopAllDownloads_def finishedRecord_def)

text \<open>
  C10. \<^verbatim>\<open>stopAllDownloads\<close> changes nothing but the status: the keys of the store are the
  same, in the same order (no record added or removed), and every record keeps its
  \<open>url\<close>, \<open>fileName\<close>, \<open>fileSize\<close>, \<open>downloadedBytes\<close> and \<open>startTime\<close>.
\<close>

theorem stopAllDownloads_frame:
  "distinct (map fst s) \<Longrightarrow>
   map fst (stopAllDownloads s) = map fst s \<and>
   map (\<lambda>(k, p). (url p, fileName p, fileSize p, downloadedBytes p, startTime p))
       (stopAllDownloads s)
   = map (\<lambda>(k, p). (url p, fileName p, fileSize p, downloadedBytes p, startTime p)) s"
  by (simp add: stopAllDownloads_map case_prod_unfold o_def)

theorem stopAllDownloads_frame_witness:
  "distinct (map fst twoRecords) \<and>
   map fst (stopAllDownloads twoRecords) = [''http://h/f.bin'', ''http://h/g.bin''] \<and>
   map (\<lambda>(k, p). (url p, fileName p, fileSize p, downloadedBytes p, startTime p))
       (stopAllDownloads twoRecords)
   = [(''http://h/f.bin'', ''f.bin'', 3, 3, 7), (''http://h/g.bin'', ''g.bin'', 9, 4, 8)]"
  using stopAllDownloads_frame [of twoRecords]
  by (simp add: twoRecords_def finishedRecord_def runningRecord_def)

section \<open>Facts about the file splitter\<close>

lemma round_up_div:
  fixes n m :: nat
  assumes "0 < m"
  shows "(n + m - 1) div m = (if n mod m = 0 then n div m else n div m + 1)"
proof -
  obtain q r where n: "n = q * m + r" and r: "r < m" and q: "q = n div m" and r': "r = n mod m"
    using assms by (metis div_mult_mod_eq mod_less_divisor)
  have shift: "(k + j * m) div m = j" if "k < m" for k j
    using that by simp
  show ?thesis
  proof (cases "r = 0")
    case True
    have "m - 1 < m" using assms by simp
    then have "(m - 1 + q * m) div m = q" by (rule shift)
    moreover have "n + m - 1 = m - 1 + q * m" using n True assms by simp
    ultimately show ?thesis using True q r' by simp
  next
    case False
    have "r - 1 < m" using r by simp
    then have "(r - 1 + (q + 1) * m) div m = q + 1" by (rule shift)
    moreover have "n + m - 1 = r - 1 + (q + 1) * m" using n False by (simp add: algebra_simps)
    ultimately show ?thesis using False q r' by simp
  qed
qed

lemma ceiling_as_div: 
  assumes m: "0 < m" 
  shows "nat \<lceil>real n / real m\<rceil> = (n + m - 1) div m"
proof -
  have "\<lceil>real n / real m\<rceil> = - (- int n div int m)"
    using ceiling_divide_eq_div [of "int n" "int m"] by simp
  also have "\<dots> = (if int n mod int m = 0 then int n div int m else int n div int m + 1)"
    using m by (simp add: zdiv_zminus1_eq_if)
  also have "\<dots> = int (if n mod m = 0 then n div m else n div m + 1)"
  proof -
    have "int n mod int m = int (n mod m)" and "int n div int m = int (n div m)"
      by (simp_all add: zmod_int zdiv_int)
    then show ?thesis by simp
  qed
  finally show ?thesis using m by (simp only: round_up_div nat_int if_False if_True)
qed

lemma chunksOf_Nil: "chunksOf m [] = []"
  by (simp add: chunksOf.simps)

lemma concat_chunksOf: "0 < m \<Longrightarrow> concat (chunksOf m xs) = xs"
proof (induction m xs rule: chunksOf.induct)
  case (1 m xs)
  show ?case
  proof (cases "xs = []")
    case True
    then show ?thesis by (simp add: chunksOf_Nil)
  next
    case False
    with 1 have "concat (chunksOf m (drop m xs)) = drop m xs" by simp
    with False 1 show ?thesis by (simp add: chunksOf.simps [of m xs])
  qed
qed

lemma length_chunksOf: "0 < m \<Longrightarrow> length (chunksOf m xs) = (length xs + m - 1) div m"
proof (induction m xs rule: chunksOf.induct)
  case (1 m xs)
  show ?case
  proof (cases "xs = []")
    case True
    with 1 show ?thesis by (simp add: chunksOf_Nil)
  next
    case False
    with 1 have ih: "length (chunksOf m (drop m xs)) = (length xs - m + m - 1) div m" by simp
    show ?thesis
    proof (cases "length xs \<le> m")
      case True
      with False 1 have "(length xs + m - 1) div m = 1"
        by (cases xs) (auto simp: div_eq_dividend_iff le_div_geq)
      with ih True False 1 show ?thesis by (simp add: chunksOf.simps [of m xs])
    next
      case False
      then have "(length xs + m - 1) div m = Suc ((length xs - 1) div m)"
        using 1 by (simp add: le_div_geq)
      with ih False \<open>xs \<noteq> []\<close> 1 show ?thesis by (simp add: chunksOf.simps [of m xs])
    qed
  qed
qed

lemma index_numbered: "map index (numbered i cs) = [i ..< i + length cs]"
  by (induction cs arbitrary: i) (auto simp: upt_rec)

lemma content_numbered: "map content (numbered i cs) = cs"
  by (induction cs arbitrary: i) auto

lemma length_numbered: "length (numbered i cs) = length cs"
  by (induction cs arbitrary: i) auto

lemma sort_key_sorted: "sorted (map f xs) \<Longrightarrow> sort_key f xs = xs"
  by (induction xs) (auto simp: insort_is_Cons)

lemma length_split: "0 < m \<Longrightarrow> length (split file m) = (length file + m - 1) div m"
  by (simp add: split_def length_numbered length_chunksOf)

text \<open>
  C8. For every file and every positive \<open>maxPartBytes\<close>, the parts of
  \<open>split file maxPartBytes\<close>, concatenated in index order, are the file's bytes; the
  indices are 1, 2, ... without gaps; and the number of parts is the ceiling of the
  file size divided by \<open>maxPartBytes\<close>.
\<close>

theorem split_round_trip:
  "0 < maxPartBytes \<Longrightarrow>
   reassemble (split file maxPartBytes) = file \<and>
   map index (split file maxPartBytes) = [1 ..< Suc (length (split file maxPartBytes))] \<and>
   length (split file maxPartBytes) = nat \<lceil>real (length file) / real maxPartBytes\<rceil>"
proof -
  assume m: "0 < maxPartBytes"
  let ?parts = "split file maxPartBytes"
  have idx: "map index ?parts = [1 ..< Suc (length ?parts)]"
    by (simp add: split_def index_numbered length_numbered)
  have "sorted (map index ?parts)" by (simp only: idx sorted_upt)
  then have "sort_key index ?parts = ?parts" by (rule sort_key_sorted)
  then have "reassemble ?parts = file"
    using m by (simp add: reassemble_def) (simp add: split_def content_numbered concat_chunksOf)
  moreover have "length ?parts = nat \<lceil>real (length file) / real maxPartBytes\<rceil>"
    using m by (simp only: length_split ceiling_as_div)
  ultimately show ?thesis using idx by blast
qed

theorem split_round_trip_witness:
  "(0::nat) < 2 \<and> reassemble (split [1, 2, 3, 4, 5] 2) = [1, 2, 3, 4, 5] \<and>
   map index (split [1, 2, 3, 4, 5] 2) = [1, 2, 3] \<and>
   length (split [1, 2, 3, 4, 5] 2) = 3"
  using split_round_trip [of 2 "[1, 2, 3, 4, 5]"]
  by (simp add: split_def chunksOf.simps)

section \<open>Facts about paths\<close>

lemma splitSlash_nonempty: "splitSlash p \<noteq> []"
  by (induction p) (auto split: list.splits)

lemma splitSlash_no_slash: "CHR ''/'' \<notin> set n \<Longrightarrow> splitSlash n = [n]"
  by (induction n) auto

lemma splitSlash_append: "splitSlash (a @ CHR ''/'' # b) = splitSlash a @ splitSlash b"
  by (induction a) (auto split: list.splits simp: splitSlash_nonempty)

lemma normalizeSegs_last:
  "plainName n \<Longrightarrow> normalizeSegs a acc (xs @ [n]) = normalizeSegs a acc xs @ [n]"
  by (induction a acc xs rule: normalizeSegs.induct)
     (auto simp: plainName_def split: list.splits)

lemma joinSlash_snoc:
  "joinSlash (ys @ [n]) = (if ys = [] then n else joinSlash ys @ CHR ''/'' # n)"
  by (induction ys rule: joinSlash.induct) auto

lemma segments_of_joined:
  assumes "plainName n"
  shows "\<exists>xs. splitSlash (if d = [] then n else d @ CHR ''/'' # n) = xs @ [n]"
proof -
  from assms have "splitSlash n = [n]" by (simp add: plainName_def splitSlash_no_slash)
  then show ?thesis by (auto simp: splitSlash_append)
qed

lemma join_ends_with_name:
  assumes n: "plainName n"
  shows "\<exists>pre. join d n = pre @ n \<and> (pre = [] \<or> last pre = CHR ''/'')"
proof -
  define p where "p = (if d = [] then n else d @ CHR ''/'' # n)"
  from n have ne: "n \<noteq> []" and ns: "CHR ''/'' \<notin> set n" by (simp_all add: plainName_def)
  from ne have p: "p \<noteq> []" by (simp add: p_def)
  have "last p = last n" using ne by (simp add: p_def)
  with ne ns have lastp: "last p \<noteq> CHR ''/''" by (metis last_in_set)
  obtain xs where xs: "splitSlash p = xs @ [n]"
    using segments_of_joined [OF n, of d] by (auto simp: p_def)
  define a where "a = (\<not> (hd p = CHR ''/''))"
  define ys where "ys = normalizeSegs a [] xs"
  define lead where "lead = (if hd p = CHR ''/'' then ''/'' else [])"
  have q: "joinSlash (normalizeSegs a [] (splitSlash p))
           = (if ys = [] then n else joinSlash ys @ CHR ''/'' # n)"
    by (simp only: xs normalizeSegs_last [OF n] joinSlash_snoc ys_def)
  have qne: "joinSlash (normalizeSegs a [] (splitSlash p)) \<noteq> []"
    using ne by (simp only: q) simp
  have "join d n = normalizePath p" using ne by (simp add: join_def p_def)
  also have "\<dots> = lead @ joinSlash (normalizeSegs a [] (splitSlash p))"
    using p lastp qne unfolding normalizePath_def Let_def a_def [symmetric] lead_def
    by (simp only: if_False append_Nil2)
  also have "\<dots> = (lead @ (if ys = [] then [] else joinSlash ys @ ''/'')) @ n"
    by (simp only: q) simp
  finally have "join d n = (lead @ (if ys = [] then [] else joinSlash ys @ ''/'')) @ n" .
  moreover have "lead @ (if ys = [] then [] else joinSlash ys @ ''/'') = [] \<or>
                 last (lead @ (if ys = [] then [] else joinSlash ys @ ''/'')) = CHR ''/''"
    by (simp add: lead_def)
  ultimately show ?thesis by blast
qed

lemma basename_join:
  assumes n: "plainName n"
  shows "basename (join d n) = n"
proof -
  obtain pre where j: "join d n = pre @ n" and pre: "pre = [] \<or> last pre = CHR ''/''"
    using join_ends_with_name [OF n] by blast
  from n have ne: "n \<noteq> []" and ns: "CHR ''/'' \<notin> set n" by (simp_all add: plainName_def)
  obtain c cs where rn: "rev n = c # cs" using ne by (cases "rev n") auto
  have "c \<in> set n" using rn by (metis list.set_intros(1) set_rev)
  with ns have c: "c \<noteq> CHR ''/''" by auto
  have d: "dropWhile (\<lambda>c. c = CHR ''/'') (rev n @ rev pre) = rev n @ rev pre"
    using c by (simp add: rn)
  have tail: "takeWhile (\<lambda>c. c \<noteq> CHR ''/'') (rev pre) = []"
  proof (cases pre rule: rev_cases)
    case Nil
    then show ?thesis by simp
  next
    case (snoc ps x)
    with pre show ?thesis by simp
  qed
  have "takeWhile (\<lambda>c. c \<noteq> CHR ''/'') (rev n @ rev pre)
        = rev n @ takeWhile (\<lambda>c. c \<noteq> CHR ''/'') (rev pre)"
    using ns by (intro takeWhile_append2) auto
  with tail have t: "takeWhile (\<lambda>c. c \<noteq> CHR ''/'') (rev n @ rev pre) = rev n" by simp
  show ?thesis
    unfolding basename_def j rev_append d t by simp
qed

text \<open>
  C9. Two concurrently active transfers with distinct URLs have distinct destination
  paths. The code derives the path from the resolved file name alone (the
  \<^verbatim>\<open>Content-Disposition\<close> file name if there is one, else the URL's basename), so two
  distinct URLs with the same basename write to the same file. Amended: two transfers
  whose resolved file names are plain have the same destination path exactly when
  their resolved file names are the same.
\<close>

theorem destinations_differ:
  "plainName (resolveFileName u1 d1) \<Longrightarrow> plainName (resolveFileName u2 d2) \<Longrightarrow>
   (destination cwd u1 d1 = destination cwd u2 d2) = (resolveFileName u1 d1 = resolveFileName u2 d2)"
  unfolding destination_def by (metis basename_join)

theorem shared_destination_counterexample:
  "''http://a.example/x/file.bin'' \<noteq> ''http://b.example/y/file.bin'' \<and>
   destination ''/srv/app'' ''http://a.example/x/file.bin'' None
   = destination ''/srv/app'' ''http://b.example/y/file.bin'' None"
  by (simp add: destination_def resolveFileName_def basename_def)

theorem destinations_differ_witness:
  "plainName (resolveFileName ''http://a.example/x/one.bin'' None) \<and>
   plainName (resolveFileName ''http://a.example/x/two.bin'' (Some ''attachment'')) \<and>
   destination ''/srv/app'' ''http://a.example/x/one.bin'' None
   \<noteq> destination ''/srv/app'' ''http://a.example/x/two.bin'' (Some ''attachment'')"
  using destinations_differ [of "''http://a.example/x/one.bin''" None
      "''http://a.example/x/two.bin''" "Some ''attachment''" "''/srv/app''"]
  by (simp add: resolveFileName_def basename_def plainName_def)

section \<open>Facts about the download manager\<close>

lemma wellformed_update:
  assumes "wellformed s" and "url p = u"
  shows "wellformed (updateDownloadProgress u p s)"
proof -
  have "set (AList.update u p s) \<subseteq> insert (u, p) (set s)"
    by (induction s) auto
  then have "\<forall>x \<in> set (AList.update u p s). case x of (k, q) \<Rightarrow> url q = k"
    using assms by (auto simp: wellformed_def list_all_iff)
  then show ?thesis
    using assms by (simp add: wellformed_def updateDownloadProgress_def distinct_update list_all_iff)
qed

lemma wellformed_stopAll: "wellformed s \<Longrightarrow> wellformed (stopAllDownloads s)"
  unfolding wellformed_def
  by (auto simp: stopAllDownloads_map list_all_iff o_def case_prod_unfold)

lemma find_by_url:
  "list_all (\<lambda>(k, p). url p = k) s \<Longrightarrow> find (\<lambda>d. url d = u) (map snd s) = map_of s u"
  by (induction s) auto

lemma stoppedInStore_lookup:
  "wellformed s \<Longrightarrow>
   stoppedInStore u s = (case map_of s u of None \<Rightarrow> False | Some p \<Rightarrow> status p = ''stopped'')"
  by (simp add: stoppedInStore_def getActiveDownloads_def wellformed_def find_by_url)

lemma map_of_updateDownloadProgress:
  "map_of (updateDownloadProgress u p s) = (map_of s)(u \<mapsto> p)"
  by (simp add: updateDownloadProgress_def update_conv')

lemma map_of_stopAll:
  "distinct (map fst s) \<Longrightarrow>
   map_of (stopAllDownloads s) k = map_option (\<lambda>p. p\<lparr>status := ''stopped''\<rparr>) (map_of s k)"
  by (simp add: stopAllDownloads_map map_of_map case_prod_unfold)
     (induction s, auto)

lemma quiet_after_stop:
  "\<not> interrupted True es \<Longrightarrow> received es = 0 \<and> payload es = []"
proof (induction es)
  case Nil
  then show ?case by simp
next
  case (Cons e es)
  then show ?case by (cases e) auto
qed

lemma onData_stopped:
  assumes "wellformed (progressMap z)" and "map_of (progressMap z) u = Some p"
    and "status p = ''stopped''" and "\<not> destroyed z" and "soleWriter u es"
  shows "map (\<lambda>s. map_of s u) (journal (onData u path wr progress es z))
           = map (\<lambda>s. map_of s u) (journal z)
             @ replicate (length (takeWhile (\<lambda>e. \<not> isData e) es)) (Some p)
         \<and> map_of (progressMap (onData u path wr progress es z)) u = Some p
         \<and> wellformed (progressMap (onData u path wr progress es z))
         \<and> destroyed (onData u path wr progress es z) = interrupted True es
         \<and> onDisk (onData u path wr progress es z) = onDisk z
         \<and> (\<not> interrupted True es \<longrightarrow> counter (onData u path wr progress es z) = counter z)"
  using assms
proof (induction es arbitrary: z)
  case Nil
  then show ?case by simp
next
  case (Cons e es)
  from Cons.prems(5) have sole: "soleWriter u es" by (simp add: soleWriter_def)
  show ?case
  proof (cases e)
    case (Data chunk)
    with Cons.prems show ?thesis
      by (simp add: onEvent_def onChunk_def stoppedInStore_lookup Let_def isData_def)
  next
    case StopAll
    let ?s = "stopAllDownloads (progressMap z)"
    let ?z = "z\<lparr>progressMap := ?s, journal := journal z @ [?s]\<rparr>"
    from Cons.prems have d: "distinct (map fst (progressMap z))" by (simp add: wellformed_def)
    have same: "p\<lparr>status := ''stopped''\<rparr> = p" using Cons.prems(3) by simp
    have rec: "map_of (progressMap ?z) u = Some p"
      using Cons.prems(2) same by (simp add: map_of_stopAll [OF d])
    have wf: "wellformed (progressMap ?z)" using Cons.prems(1) by (simp add: wellformed_stopAll)
    have nd: "\<not> destroyed ?z" using Cons.prems(4) by simp
    note ih = Cons.IH [OF wf rec Cons.prems(3) nd sole]
    have step: "onData u path wr progress (e # es) z = onData u path wr progress es ?z"
      using StopAll Cons.prems(4) by (simp add: onEvent_def Let_def)
    show ?thesis
      unfolding step using ih StopAll Cons.prems(2) same
      by (simp add: map_of_stopAll [OF d] replicate_append_same isData_def)
  next
    case (Put q)
    let ?s = "updateDownloadProgress (url q) q (progressMap z)"
    let ?z = "z\<lparr>progressMap := ?s, journal := journal z @ [?s]\<rparr>"
    from Cons.prems(5) Put have other: "url q \<noteq> u" by (simp add: soleWriter_def)
    have rec: "map_of (progressMap ?z) u = Some p"
      using Cons.prems(2) other by (simp add: map_of_updateDownloadProgress)
    have wf: "wellformed (progressMap ?z)" using Cons.prems(1) by (simp add: wellformed_update)
    have nd: "\<not> destroyed ?z" using Cons.prems(4) by simp
    note ih = Cons.IH [OF wf rec Cons.prems(3) nd sole]
    have step: "onData u path wr progress (e # es) z = onData u path wr progress es ?z"
      using Put Cons.prems(4) by (simp add: onEvent_def Let_def)
    show ?thesis
      unfolding step using ih Put rec
      by (simp add: replicate_append_same isData_def)
  qed
qed

lemma onData_active:
  assumes "wellformed (progressMap z)"
    and "map_of (progressMap z) u
         = Some (progress\<lparr>downloadedBytes := counter z, status := ''downloading''\<rparr>)"
    and "url progress = u" and "\<not> destroyed z"
    and "wr \<longrightarrow> onDisk z path = Some old \<and> length old = counter z"
    and "soleWriter u es"
  shows "map (\<lambda>s. map_of s u) (journal (onData u path wr progress es z))
           = map (\<lambda>s. map_of s u) (journal z) @ map Some (seen progress (counter z) es)
         \<and> map_of (progressMap (onData u path wr progress es z)) u
           = Some (last (progress\<lparr>downloadedBytes := counter z, status := ''downloading''\<rparr>
                         # seen progress (counter z) es))
         \<and> wellformed (progressMap (onData u path wr progress es z))
         \<and> destroyed (onData u path wr progress es z) = interrupted False es
         \<and> (\<forall>q. q \<noteq> path \<longrightarrow> onDisk (onData u path wr progress es z) q = onDisk z q)
         \<and> (wr \<longrightarrow> (\<exists>bytes. onDisk (onData u path wr progress es z) path = Some bytes))
         \<and> (\<not> wr \<longrightarrow> onDisk (onData u path wr progress es z) = onDisk z)
         \<and> (\<not> interrupted False es \<longrightarrow>
              counter (onData u path wr progress es z) = counter z + received es \<and>
              (wr \<longrightarrow> onDisk (onData u path wr progress es z) path = Some (old @ payload es)))"
  using assms
proof (induction es arbitrary: z old)
  case Nil
  then show ?case by simp
next
  case (Cons e es)
  from Cons.prems(6) have sole: "soleWriter u es" by (simp add: soleWriter_def)
  show ?case
  proof (cases e)
    case (Data chunk)
    let ?n = "counter z + length chunk"
    let ?s = "updateDownloadProgress u
                (progress\<lparr>downloadedBytes := ?n, status := ''downloading''\<rparr>) (progressMap z)"
    let ?z = "z\<lparr>counter := ?n, progressMap := ?s,
                 onDisk := (if wr then writeChunk path (counter z) chunk (onDisk z)
                            else onDisk z),
                 journal := journal z @ [?s]\<rparr>"
    have ns: "\<not> stoppedInStore u (progressMap z)"
      using Cons.prems(1,2) by (simp add: stoppedInStore_lookup)
    have step: "onData u path wr progress (e # es) z = onData u path wr progress es ?z"
      using Data ns Cons.prems(4) by (simp add: onEvent_def onChunk_def Let_def)
    have wf: "wellformed (progressMap ?z)"
      using Cons.prems(1,3) by (simp add: wellformed_update)
    have rec: "map_of (progressMap ?z) u
               = Some (progress\<lparr>downloadedBytes := counter ?z, status := ''downloading''\<rparr>)"
      by (simp add: map_of_updateDownloadProgress)
    have stored: "wr \<longrightarrow> onDisk ?z path = Some (old @ chunk) \<and>
                       length (old @ chunk) = counter ?z"
      using Cons.prems(5) by (simp add: writeChunk_def writeAt_def)
    have nd: "\<not> destroyed ?z" using Cons.prems(4) by simp
    note ih = Cons.IH [OF wf rec Cons.prems(3) nd stored sole]
    show ?thesis
      unfolding step using ih Data
      by (simp add: map_of_updateDownloadProgress writeChunk_def split: option.splits)
  next
    case StopAll
    let ?s = "stopAllDownloads (progressMap z)"
    let ?z = "z\<lparr>progressMap := ?s, journal := journal z @ [?s]\<rparr>"
    let ?p = "progress\<lparr>downloadedBytes := counter z, status := ''stopped''\<rparr>"
    from Cons.prems have d: "distinct (map fst (progressMap z))" by (simp add: wellformed_def)
    have step: "onData u path wr progress (e # es) z = onData u path wr progress es ?z"
      using StopAll Cons.prems(4) by (simp add: onEvent_def Let_def)
    have wf: "wellformed (progressMap ?z)" using Cons.prems(1) by (simp add: wellformed_stopAll)
    have rec: "map_of (progressMap ?z) u = Some ?p"
      using Cons.prems(2) by (simp add: map_of_stopAll [OF d])
    have st: "status ?p = ''stopped''" by simp
    have nd: "\<not> destroyed ?z" using Cons.prems(4) by simp
    note s = onData_stopped [OF wf rec st nd sole, of path wr progress]
    show ?thesis
      unfolding step using s StopAll Cons.prems(4,5) rec quiet_after_stop [of es]
      by (cases wr) (simp_all add: replicate_append_same)
  next
    case (Put q)
    let ?s = "updateDownloadProgress (url q) q (progressMap z)"
    let ?z = "z\<lparr>progressMap := ?s, journal := journal z @ [?s]\<rparr>"
    from Cons.prems(6) Put have other: "url q \<noteq> u" by (simp add: soleWriter_def)
    have step: "onData u path wr progress (e # es) z = onData u path wr progress es ?z"
      using Put Cons.prems(4) by (simp add: onEvent_def Let_def)
    have wf: "wellformed (progressMap ?z)" using Cons.prems(1) by (simp add: wellformed_update)
    have rec: "map_of (progressMap ?z) u
               = Some (progress\<lparr>downloadedBytes := counter ?z, status := ''downloading''\<rparr>)"
      using Cons.prems(2) other by (simp add: map_of_updateDownloadProgress)
    have stored: "wr \<longrightarrow> onDisk ?z path = Some old \<and> length old = counter ?z"
      using Cons.prems(5) by simp
    have nd: "\<not> destroyed ?z" using Cons.prems(4) by simp
    note ih = Cons.IH [OF wf rec Cons.prems(3) nd stored sole]
    show ?thesis
      unfolding step using ih Put rec by simp
  qed
qed

lemma map_filter_Some: "map f xs = map Some ys \<Longrightarrow> List.map_filter f xs = ys"
  by (induction xs arbitrary: ys) (auto simp: map_filter_simps)

lemma handleDownload_facts:
  fixes survives :: bool and cwd :: string and r :: Response and u :: string and w :: world
  defines "path \<equiv> destination cwd u (contentDisposition r)"
  defines "progress \<equiv> initialProgress u r"
  defines "ok \<equiv> fetchSucceeds (Responds r)"
  defines "halted \<equiv> interrupted False (body r)"
  assumes wf: "wellformed (progressStore w)" and sole: "soleWriter u (body r)"
  shows "\<exists>out w' tr.
           handleDownload survives cwd (Responds r) u w = (out, w', tr)
         \<and> (ok \<longrightarrow> out = Inr (downloadResult path u r))
         \<and> (halted \<and> \<not> survives \<longrightarrow> out = Inl (ProcessExit (Error stoppedByUser)))
         \<and> (\<not> ok \<and> \<not> (halted \<and> \<not> survives) \<longrightarrow>
              (\<exists>e. out = Inl (Rejected e) \<and>
                   (\<not> halted \<or> openFailure r = None \<longrightarrow>
                      e = Error (rejection (disk w path) (Responds r)))))
         \<and> wellformed (progressStore w')
         \<and> observed u tr
             = progress # seen progress 0 (body r)
               @ (if ok then [progress\<lparr>downloadedBytes := announced r, status := ''completed''\<rparr>]
                  else [])
         \<and> map_of (progressStore w') u = Some (last (observed u tr))
         \<and> (\<forall>q. q \<noteq> path \<longrightarrow> disk w' q = disk w q)
         \<and> (openFailure r = None \<longrightarrow> (\<exists>bytes. disk w' path = Some bytes))
         \<and> (openFailure r \<noteq> None \<longrightarrow> disk w' = disk w)
         \<and> (ok \<longrightarrow> disk w' path = Some (payload (body r)))"
proof -
  define wr where "wr = (openFailure r = None)"
  define s0 where "s0 = updateDownloadProgress u progress (progressStore w)"
  define z0 where "z0 = \<lparr>counter = 0, destroyed = False, progressMap = s0,
                         onDisk = openDestination path r (disk w), journal = [s0]\<rparr>"
  define z where "z = onData u path wr progress (body r) z0"
  define w1 where "w1 = \<lparr>progressStore = progressMap z, disk = onDisk z\<rparr>"
  have p0: "progress\<lparr>downloadedBytes := 0, status := ''downloading''\<rparr> = progress"
    by (simp add: progress_def initialProgress_def)
  have up: "url progress = u" by (simp add: progress_def initialProgress_def)
  have wf0: "wellformed (progressMap z0)"
    using wf up by (simp add: z0_def s0_def wellformed_update)
  have rec0: "map_of (progressMap z0) u
              = Some (progress\<lparr>downloadedBytes := counter z0, status := ''downloading''\<rparr>)"
    by (simp add: z0_def s0_def map_of_updateDownloadProgress p0)
  have nd: "\<not> destroyed z0" by (simp add: z0_def)
  have d0: "wr \<longrightarrow> onDisk z0 path = Some [] \<and> length ([] :: byte list) = counter z0"
    by (simp add: z0_def wr_def openDestination_def)
  note a = onData_active [OF wf0 rec0 up nd d0 sole, folded z_def]
  have c0: "counter z0 = 0" and j0: "journal z0 = [s0]" and m0: "map_of s0 u = Some progress"
    and od: "\<And>q. q \<noteq> path \<Longrightarrow> onDisk z0 q = disk w q"
    by (simp_all add: z0_def s0_def map_of_updateDownloadProgress openDestination_def)
  have closed: "\<not> wr \<Longrightarrow> onDisk z0 = disk w"
    by (cases "openFailure r") (simp_all add: z0_def openDestination_def wr_def)
  from a have j: "map (\<lambda>s. map_of s u) (journal z) = map Some (progress # seen progress 0 (body r))"
    by (simp add: c0 j0 m0)
  from a have rec: "map_of (progressMap z) u = Some (last (progress # seen progress 0 (body r)))"
    by (simp only: c0 p0)
  from a have wfz: "wellformed (progressMap z)" by blast
  from a have dz: "destroyed z = halted" by (simp add: halted_def)
  from a have other: "\<And>q. q \<noteq> path \<Longrightarrow> onDisk z q = disk w q" by (simp add: od)
  from a have ex: "wr \<Longrightarrow> \<exists>bytes. onDisk z path = Some bytes" by blast
  from a have shut: "\<not> wr \<Longrightarrow> onDisk z = disk w" using closed by simp
  from a have full: "\<not> halted \<Longrightarrow> wr \<Longrightarrow> onDisk z path = Some (payload (body r))"
    by (simp add: halted_def)
  have unfold: "handleDownload survives cwd (Responds r) u w =
      (if destroyed z \<and> \<not> survives then (Inl (ProcessExit (Error stoppedByUser)), w1, journal z)
       else (case settle u path r (destroyed z) w1 of
               (Inl e, w2) \<Rightarrow> (Inl (Rejected e), w2, journal z)
             | (Inr res, w2) \<Rightarrow> (Inr res, w2, journal z @ [progressStore w2])))"
    unfolding handleDownload_def w1_def z_def z0_def s0_def progress_def path_def wr_def
    by (simp only: Let_def exchange.case)
  have o: "observed u (journal z) = progress # seen progress 0 (body r)"
    unfolding observed_def using j by (rule map_filter_Some)
  have final: "map_of (progressMap z) u = Some (last (observed u (journal z)))"
    by (simp only: o rec)
  show ?thesis
  proof (cases ok)
    case True
    then have nc: "\<not> halted" and fin: "ending r = Finished" and opened: "wr"
      by (simp_all add: ok_def fetchSucceeds_def halted_def wr_def)
    let ?pf = "progress\<lparr>downloadedBytes := announced r, status := ''completed''\<rparr>"
    let ?s = "updateDownloadProgress u ?pf (progressMap z)"
    have st: "settle u path r False w1
              = (Inr (downloadResult path u r), w1\<lparr>progressStore := ?s\<rparr>)"
      using fin opened
      by (simp add: settle_def pipelineError_def wr_def w1_def progress_def)
    have h: "handleDownload survives cwd (Responds r) u w =
             (Inr (downloadResult path u r), w1\<lparr>progressStore := ?s\<rparr>, journal z @ [?s])"
      unfolding unfold using nc dz st by simp
    have "map (\<lambda>s. map_of s u) (journal z @ [?s])
          = map Some (progress # seen progress 0 (body r) @ [?pf])"
      using j by (simp add: map_of_updateDownloadProgress)
    then have o': "observed u (journal z @ [?s]) = progress # seen progress 0 (body r) @ [?pf]"
      unfolding observed_def by (rule map_filter_Some)
    have 1: "wellformed ?s" using wfz up by (simp add: wellformed_update)
    have 2: "map_of ?s u = Some (last (observed u (journal z @ [?s])))"
      by (simp only: o') (simp add: map_of_updateDownloadProgress)
    have 3: "onDisk z path = Some (payload (body r))"
      using nc opened full by simp
    show ?thesis
      using True nc h o' other 1 2 3 opened
      by (intro exI [of _ "Inr (downloadResult path u r)"]
          exI [of _ "w1\<lparr>progressStore := ?s\<rparr>"] exI [of _ "journal z @ [?s]"])
         (simp add: w1_def wr_def)
  next
    case False
    show ?thesis
    proof (cases "halted \<and> \<not> survives")
      case True
      have h: "handleDownload survives cwd (Responds r) u w
               = (Inl (ProcessExit (Error stoppedByUser)), w1, journal z)"
        unfolding unfold using True dz by simp
      show ?thesis
        using False True h o final other ex shut wfz
        by (intro exI [of _ "Inl (ProcessExit (Error stoppedByUser))"]
            exI [of _ w1] exI [of _ "journal z"])
           (auto simp: w1_def wr_def)
    next
      case stays: False
      have fails: "pipelineError r (destroyed z) \<noteq> None"
        using False dz
        by (auto simp: ok_def fetchSucceeds_def halted_def pipelineError_def
            split: option.splits ending.splits)
      then obtain err where err: "pipelineError r (destroyed z) = Some err" by blast
      have kept: "snd (cleanup path err (onDisk z)) = onDisk z"
        by (simp add: cleanup_def unlink_def)
      define thrown where "thrown = fst (cleanup path err (onDisk z))"
      have cl: "cleanup path err (onDisk z) = (thrown, onDisk z)"
        using kept by (simp add: thrown_def prod_eq_iff)
      have st: "settle u path r (destroyed z) w1 = (Inl (failedToDownload thrown), w1)"
        by (simp add: settle_def err cl w1_def)
      have h: "handleDownload survives cwd (Responds r) u w
               = (Inl (Rejected (failedToDownload thrown)), w1, journal z)"
        unfolding unfold using stays dz st by auto
      have msg: "failedToDownload thrown = Error (rejection (disk w path) (Responds r))"
        if "\<not> halted \<or> openFailure r = None"
      proof (cases "openFailure r")
        case None
        then have "wr" by (simp add: wr_def)
        then have "existsSync path (onDisk z)" using ex by (auto simp: existsSync_def)
        then have "thrown = Error invalidCallback"
          by (simp add: thrown_def cleanup_def unlink_def)
        then show ?thesis using None by (simp add: failedToDownload_def rejection_def)
      next
        case (Some m)
        then have nw: "\<not> wr" by (simp add: wr_def)
        from that Some have nc: "\<not> halted" by simp
        have e: "err = Error m"
          using err dz nc Some by (simp add: pipelineError_def)
        have "thrown = (if disk w path = None then Error m else Error invalidCallback)"
          using shut [OF nw] e by (simp add: thrown_def cleanup_def unlink_def existsSync_def)
        then show ?thesis using Some by (simp add: failedToDownload_def rejection_def)
      qed
      show ?thesis
        using False stays h o final other ex shut wfz msg
        by (intro exI [of _ "Inl (Rejected (failedToDownload thrown))"]
            exI [of _ w1] exI [of _ "journal z"])
           (auto simp: w1_def wr_def)
    qed
  qed
qed

lemma untilTerminal_split:
  "untilTerminal xs = takeWhile (\<lambda>p. \<not> terminal p) xs @ take 1 (dropWhile (\<lambda>p. \<not> terminal p) xs)"
  by (induction xs) auto

lemma untilTerminal_snoc:
  "untilTerminal (xs @ [y]) = (if \<exists>p \<in> set xs. terminal p then untilTerminal xs else xs @ [y])"
  by (induction xs) auto

lemma untilTerminal_none: "\<forall>p \<in> set xs. \<not> terminal p \<Longrightarrow> untilTerminal xs = xs"
  by (induction xs) auto

lemma seen_window:
  "sorted (n # map downloadedBytes (untilTerminal (seen progress n es))) \<and>
   (\<forall>p \<in> set (untilTerminal (seen progress n es)). downloadedBytes p \<le> n + received es)"
proof (induction es arbitrary: n)
  case Nil
  then show ?case by simp
next
  case (Cons e es)
  show ?case
  proof (cases e)
    case (Data chunk)
    have nt: "\<not> terminal (progress\<lparr>downloadedBytes := n + length chunk, status := ''downloading''\<rparr>)"
      by (simp add: terminal_def)
    from Cons.IH [of "n + length chunk"] Data nt show ?thesis
      by (auto simp: add.assoc)
  next
    case StopAll
    have t: "terminal (progress\<lparr>downloadedBytes := n, status := ''stopped''\<rparr>)"
      by (simp add: terminal_def)
    show ?thesis using StopAll t by simp
  next
    case (Put q)
    have nt: "\<not> terminal (progress\<lparr>downloadedBytes := n, status := ''downloading''\<rparr>)"
      by (simp add: terminal_def)
    from Cons.IH [of n] Put nt show ?thesis by auto
  qed
qed

lemma wellformed_empty: "wellformed (progressStore emptyWorld)"
  by (simp add: wellformed_def emptyWorld_def)

lemma last_seen_status:
  "status p = ''downloading'' \<Longrightarrow>
   status (last (p # seen progress n es))
     = (if StopAll \<in> set es then ''stopped'' else ''downloading'')"
proof (induction es arbitrary: p n)
  case Nil
  then show ?case by simp
next
  case (Cons e es)
  show ?case
  proof (cases e)
    case (Data chunk)
    have "status (progress\<lparr>downloadedBytes := n + length chunk, status := ''downloading''\<rparr>)
          = ''downloading''" by simp
    from Cons.IH [OF this, of "n + length chunk"] Data show ?thesis by simp
  next
    case StopAll
    then show ?thesis by simp
  next
    case (Put q)
    have "status (progress\<lparr>downloadedBytes := n, status := ''downloading''\<rparr>) = ''downloading''"
      by simp
    from Cons.IH [OF this, of n] Put show ?thesis by simp
  qed
qed

lemma handleDownload_no_response:
  "handleDownload survives cwd (MkdirFails m) u w
   = (Inl (Rejected (Error (''Failed to download file: '' @ m))), w, [])"
  "handleDownload survives cwd (RequestFails m) u w
   = (Inl (Rejected (Error (''Failed to download file: '' @ m))), w, [])"
  by (simp_all add: handleDownload_def failedToDownload_def)

lemma example_path:
  "destination ''/srv/app'' ''http://h/f.bin'' None = ''/srv/app/downloads/f.bin''"
  by (simp add: destination_def resolveFileName_def basename_def DOWNLOAD_DIR_def join_def
      normalizePath_def Let_def)

text \<open>
  C1. For every transfer the \<open>downloadedBytes\<close> values readable from the store under
  its URL are non-decreasing from the creation of the record up to the first record with
  a terminal status, that record included. The writes made while the status is
  \<^verbatim>\<open>downloading\<close> are non-decreasing, but the final write sets \<open>downloadedBytes\<close> to the
  \<^verbatim>\<open>Content-Length\<close> value, which is 0 when the header is absent; and a second fetch of
  the same URL writes the same record with its own counter. Amended: for a transfer
  that is the only writer of its record, the values are non-decreasing over the records
  before the first terminal one; they are non-decreasing up to and including the first
  terminal record when the bytes received do not exceed the \<^verbatim>\<open>Content-Length\<close> value.
\<close>

theorem downloadedBytes_non_decreasing:
  assumes "wellformed (progressStore w)"
    and "soleWriter u (body r)"
    and "handleDownload survives cwd (Responds r) u w = (res, w', tr)"
  shows "sorted (map downloadedBytes (takeWhile (\<lambda>p. \<not> terminal p) (observed u tr))) \<and>
         (received (body r) \<le> announced r \<longrightarrow>
            sorted (map downloadedBytes (untilTerminal (observed u tr))))"
proof -
  define progress where "progress = initialProgress u r"
  define final where "final = progress\<lparr>downloadedBytes := announced r, status := ''completed''\<rparr>"
  define xs where "xs = seen progress 0 (body r)"
  have o: "observed u tr = progress # xs @ (if fetchSucceeds (Responds r) then [final] else [])"
    using handleDownload_facts [OF assms(1,2), of survives cwd] assms(3)
    by (auto simp: progress_def final_def xs_def)
  have nt: "\<not> terminal progress" by (simp add: terminal_def progress_def initialProgress_def)
  have tf: "terminal final" by (simp add: terminal_def final_def)
  have win: "sorted (map downloadedBytes (untilTerminal xs))"
    and bound: "\<forall>p \<in> set (untilTerminal xs). downloadedBytes p \<le> received (body r)"
    using seen_window [of 0 progress "body r"] by (simp_all add: xs_def)
  have pre: "sorted (map downloadedBytes (takeWhile (\<lambda>p. \<not> terminal p) xs))"
    using win by (simp add: untilTerminal_split [of xs] sorted_append)
  have zero: "downloadedBytes progress = 0" by (simp add: progress_def initialProgress_def)
  have "takeWhile (\<lambda>p. \<not> terminal p) (xs @ [final]) = takeWhile (\<lambda>p. \<not> terminal p) xs"
    using tf by (induction xs) auto
  then have first: "sorted (map downloadedBytes (takeWhile (\<lambda>p. \<not> terminal p) (observed u tr)))"
    using pre nt zero by (simp add: o)
  have second: "sorted (map downloadedBytes (untilTerminal (observed u tr)))"
    if le: "received (body r) \<le> announced r"
  proof (cases "fetchSucceeds (Responds r) \<and> (\<forall>p \<in> set xs. \<not> terminal p)")
    case True
    then have all: "untilTerminal xs = xs" by (simp add: untilTerminal_none)
    have "sorted (map downloadedBytes (xs @ [final]))"
      using win bound le all by (auto simp: sorted_append final_def)
    then show ?thesis using True nt zero by (simp add: o untilTerminal_snoc)
  next
    case False
    then show ?thesis using win nt zero by (auto simp: o untilTerminal_snoc)
  qed
  show ?thesis using first second by simp
qed

theorem downloadedBytes_non_decreasing_witness:
  "wellformed (progressStore emptyWorld) \<and>
   soleWriter ''http://h/f.bin'' (body exactResponse) \<and>
   received (body exactResponse) \<le> announced exactResponse \<and>
   sorted (map downloadedBytes (untilTerminal (observed ''http://h/f.bin''
     (snd (snd (handleDownload False ''/srv/app'' (Responds exactResponse) ''http://h/f.bin''
        emptyWorld))))))"
proof -
  have sole: "soleWriter ''http://h/f.bin'' (body exactResponse)"
    by (simp add: soleWriter_def exactResponse_def)
  from downloadedBytes_non_decreasing [OF wellformed_empty sole,
      of False "''/srv/app''"
         "fst (handleDownload False ''/srv/app'' (Responds exactResponse) ''http://h/f.bin'' emptyWorld)"
         "fst (snd (handleDownload False ''/srv/app'' (Responds exactResponse) ''http://h/f.bin'' emptyWorld))"
         "snd (snd (handleDownload False ''/srv/app'' (Responds exactResponse) ''http://h/f.bin'' emptyWorld))"]
  show ?thesis
    by (simp add: wellformed_empty sole) (simp add: exactResponse_def announced_def)
qed

theorem final_write_counterexample:
  "map downloadedBytes (untilTerminal (observed ''http://h/f.bin''
     (snd (snd (handleDownload False ''/srv/app'' (Responds noLengthResponse) ''http://h/f.bin''
        emptyWorld)))))
   = [0, 3, 0]"
proof -
  have sole: "soleWriter ''http://h/f.bin'' (body noLengthResponse)"
    by (simp add: soleWriter_def noLengthResponse_def)
  have ok: "fetchSucceeds (Responds noLengthResponse)"
    by (simp add: fetchSucceeds_def noLengthResponse_def)
  obtain out w' tr where
    "handleDownload False ''/srv/app'' (Responds noLengthResponse) ''http://h/f.bin'' emptyWorld
       = (out, w', tr)"
    and "observed ''http://h/f.bin'' tr
         = initialProgress ''http://h/f.bin'' noLengthResponse
           # seen (initialProgress ''http://h/f.bin'' noLengthResponse) 0 (body noLengthResponse)
           @ [(initialProgress ''http://h/f.bin'' noLengthResponse)
                \<lparr>downloadedBytes := announced noLengthResponse, status := ''completed''\<rparr>]"
    using handleDownload_facts [OF wellformed_empty sole, of False "''/srv/app''"] ok
    by auto
  then show ?thesis
    by (simp add: noLengthResponse_def initialProgress_def announced_def terminal_def)
qed

text \<open>
  C2. Every transfer that does not complete, in particular every fetch that fails with a
  network or I/O error, leaves its record in status \<^verbatim>\<open>failed\<close> or \<^verbatim>\<open>stopped\<close>. The code
  never writes \<^verbatim>\<open>failed\<close>, and its two \<^verbatim>\<open>catch\<close> blocks do not write the store at all.
  Amended: a fetch that rejects before the response leaves the store as it was; a fetch
  that is the only writer of its record and rejects after the response leaves the record
  of its URL in status \<^verbatim>\<open>stopped\<close> if \<^verbatim>\<open>stopAllDownloads\<close> ran during the body and in status
  \<^verbatim>\<open>downloading\<close> otherwise.
\<close>

theorem failed_fetch_status:
  assumes "wellformed (progressStore w)"
    and "case net of Responds r \<Rightarrow> soleWriter u (body r) | _ \<Rightarrow> True"
    and "handleDownload survives cwd net u w = (Inl (Rejected e), w', tr)"
  shows "case net of
           Responds r \<Rightarrow>
             (\<exists>p. map_of (progressStore w') u = Some p \<and>
                  status p = (if StopAll \<in> set (body r) then ''stopped'' else ''downloading''))
         | _ \<Rightarrow> progressStore w' = progressStore w"
proof (cases net)
  case (MkdirFails m)
  with assms(3) show ?thesis by (simp add: handleDownload_no_response)
next
  case (RequestFails m)
  with assms(3) show ?thesis by (simp add: handleDownload_no_response)
next
  case (Responds r)
  define progress where "progress = initialProgress u r"
  from assms(2) Responds have sole: "soleWriter u (body r)" by simp
  from handleDownload_facts [OF assms(1) sole, of survives cwd] assms(3) Responds
  have "\<not> fetchSucceeds (Responds r)"
    and "observed u tr = progress # seen progress 0 (body r)"
    and "map_of (progressStore w') u = Some (last (observed u tr))"
    by (auto simp: progress_def split: if_splits)
  moreover have "status progress = ''downloading''"
    by (simp add: progress_def initialProgress_def)
  ultimately show ?thesis
    using Responds last_seen_status [of progress progress 0 "body r"] by simp
qed

theorem failed_fetch_status_witness:
  "wellformed (progressStore emptyWorld) \<and>
   soleWriter ''http://h/f.bin'' (body stoppedThenBroken) \<and>
   fst (handleDownload False ''/srv/app'' (Responds stoppedThenBroken) ''http://h/f.bin'' emptyWorld)
     = Inl (Rejected (Error (''Failed to download file: '' @ invalidCallback))) \<and>
   map_option status
     (map_of (progressStore (fst (snd (handleDownload False ''/srv/app''
        (Responds stoppedThenBroken) ''http://h/f.bin'' emptyWorld)))) ''http://h/f.bin'')
     = Some ''stopped''"
proof -
  let ?run = "handleDownload False ''/srv/app'' (Responds stoppedThenBroken) ''http://h/f.bin''
                emptyWorld"
  have sole: "soleWriter ''http://h/f.bin'' (body stoppedThenBroken)"
    by (simp add: soleWriter_def stoppedThenBroken_def)
  have "\<not> fetchSucceeds (Responds stoppedThenBroken)"
    "\<not> interrupted False (body stoppedThenBroken)"
    "openFailure stoppedThenBroken = None"
    by (simp_all add: fetchSucceeds_def stoppedThenBroken_def)
  with handleDownload_facts [OF wellformed_empty sole, of False "''/srv/app''"]
  have f: "fst ?run = Inl (Rejected (Error (''Failed to download file: '' @ invalidCallback)))"
    by (auto simp: rejection_def)
  then have "?run = (Inl (Rejected (Error (''Failed to download file: '' @ invalidCallback))),
                     fst (snd ?run), snd (snd ?run))"
    by (metis prod.collapse)
  from failed_fetch_status [OF wellformed_empty _ this] f sole show ?thesis
    by (auto simp: wellformed_empty stoppedThenBroken_def)
qed

theorem failed_fetch_counterexample:
  "fst (handleDownload False ''/srv/app'' (Responds brokenResponse) ''http://h/f.bin'' emptyWorld)
     = Inl (Rejected (Error (''Failed to download file: '' @ invalidCallback))) \<and>
   map_option status
     (map_of (progressStore (fst (snd (handleDownload False ''/srv/app'' (Responds brokenResponse)
        ''http://h/f.bin'' emptyWorld)))) ''http://h/f.bin'') = Some ''downloading''"
proof -
  let ?run = "handleDownload False ''/srv/app'' (Responds brokenResponse) ''http://h/f.bin''
                emptyWorld"
  have sole: "soleWriter ''http://h/f.bin'' (body brokenResponse)"
    by (simp add: soleWriter_def brokenResponse_def)
  have no: "\<not> fetchSucceeds (Responds brokenResponse)"
    "\<not> interrupted False (body brokenResponse)"
    "openFailure brokenResponse = None"
    by (simp_all add: fetchSucceeds_def brokenResponse_def)
  with handleDownload_facts [OF wellformed_empty sole, of False "''/srv/app''"]
  obtain w' tr where
    "?run = (Inl (Rejected (Error (''Failed to download file: '' @ invalidCallback))), w', tr)"
    and "observed ''http://h/f.bin'' tr
         = initialProgress ''http://h/f.bin'' brokenResponse
           # seen (initialProgress ''http://h/f.bin'' brokenResponse) 0 (body brokenResponse)"
    and "map_of (progressStore w') ''http://h/f.bin'' = Some (last (observed ''http://h/f.bin'' tr))"
    by (auto simp: rejection_def)
  then show ?thesis
    by (simp add: brokenResponse_def initialProgress_def)
qed

lemma cancelled_progress:
  "initialProgress ''http://h/f.bin'' cancelledResponse
   = \<lparr>fileName = ''f.bin'', fileSize = 4, downloadedBytes = 0, status = ''downloading'',
      url = ''http://h/f.bin'', startTime = 0\<rparr>"
  by (simp add: initialProgress_def cancelledResponse_def announced_def resolveFileName_def
      basename_def)

lemma cancelled_body:
  "onData ''http://h/f.bin'' ''/srv/app/downloads/f.bin'' True
     \<lparr>fileName = ''f.bin'', fileSize = 4, downloadedBytes = 0, status = ''downloading'',
      url = ''http://h/f.bin'', startTime = 0\<rparr>
     [Data [1, 2], StopAll, Data [3, 4]]
     \<lparr>counter = 0, destroyed = False,
      progressMap = [(''http://h/f.bin'',
        \<lparr>fileName = ''f.bin'', fileSize = 4, downloadedBytes = 0, status = ''downloading'',
         url = ''http://h/f.bin'', startTime = 0\<rparr>)],
      onDisk = [''/srv/app/downloads/f.bin'' \<mapsto> []],
      journal = [[(''http://h/f.bin'',
        \<lparr>fileName = ''f.bin'', fileSize = 4, downloadedBytes = 0, status = ''downloading'',
         url = ''http://h/f.bin'', startTime = 0\<rparr>)]]\<rparr>
   = \<lparr>counter = 4, destroyed = True,
      progressMap = [(''http://h/f.bin'',
        \<lparr>fileName = ''f.bin'', fileSize = 4, downloadedBytes = 2, status = ''stopped'',
         url = ''http://h/f.bin'', startTime = 0\<rparr>)],
      onDisk = [''/srv/app/downloads/f.bin'' \<mapsto> [1, 2]],
      journal = [[(''http://h/f.bin'',
          \<lparr>fileName = ''f.bin'', fileSize = 4, downloadedBytes = 0, status = ''downloading'',
           url = ''http://h/f.bin'', startTime = 0\<rparr>)],
       [(''http://h/f.bin'',
          \<lparr>fileName = ''f.bin'', fileSize = 4, downloadedBytes = 2, status = ''downloading'',
           url = ''http://h/f.bin'', startTime = 0\<rparr>)],
       [(''http://h/f.bin'',
          \<lparr>fileName = ''f.bin'', fileSize = 4, downloadedBytes = 2, status = ''stopped'',
           url = ''http://h/f.bin'', startTime = 0\<rparr>)]]\<rparr>"
  by (simp add: onEvent_def onChunk_def Let_def updateDownloadProgress_def stopAllDownloads_def
      stoppedInStore_def getActiveDownloads_def writeChunk_def writeAt_def)

text \<open>
  C4. When the record of a transfer is set to \<^verbatim>\<open>stopped\<close> while \<open>downloadedBytes\<close> is
  below \<open>fileSize\<close>, the fetch aborts, the partial file is deleted before the error is
  reported, and the record stays \<^verbatim>\<open>stopped\<close>. The run below receives 2 of 4 bytes, is
  stopped, and receives the next chunk. The fetch aborts and the record stays
  \<^verbatim>\<open>stopped\<close>, but the file is still on disk with its 2 bytes: in a process that
  survives the listener's uncaught exception the cleanup is reached, and the error
  reported is the one thrown by \<^verbatim>\<open>unlink\<close>; in one that does not, the process exits
  with the file in place and nothing is reported.
\<close>

theorem cancelled_transfer_keeps_file:
  "handleDownload True ''/srv/app'' (Responds cancelledResponse) ''http://h/f.bin'' emptyWorld
   = (Inl (Rejected (Error (''Failed to download file: '' @ invalidCallback))),
      \<lparr>progressStore = [(''http://h/f.bin'',
          \<lparr>fileName = ''f.bin'', fileSize = 4, downloadedBytes = 2, status = ''stopped'',
           url = ''http://h/f.bin'', startTime = 0\<rparr>)],
       disk = [''/srv/app/downloads/f.bin'' \<mapsto> [1, 2]]\<rparr>,
      [[(''http://h/f.bin'',
          \<lparr>fileName = ''f.bin'', fileSize = 4, downloadedBytes = 0, status = ''downloading'',
           url = ''http://h/f.bin'', startTime = 0\<rparr>)],
       [(''http://h/f.bin'',
          \<lparr>fileName = ''f.bin'', fileSize = 4, downloadedBytes = 2, status = ''downloading'',
           url = ''http://h/f.bin'', startTime = 0\<rparr>)],
       [(''http://h/f.bin'',
          \<lparr>fileName = ''f.bin'', fileSize = 4, downloadedBytes = 2, status = ''stopped'',
           url = ''http://h/f.bin'', startTime = 0\<rparr>)]]) \<and>
   handleDownload False ''/srv/app'' (Responds cancelledResponse) ''http://h/f.bin'' emptyWorld
   = (Inl (ProcessExit (Error ''Download stopped by user'')),
      \<lparr>progressStore = [(''http://h/f.bin'',
          \<lparr>fileName = ''f.bin'', fileSize = 4, downloadedBytes = 2, status = ''stopped'',
           url = ''http://h/f.bin'', startTime = 0\<rparr>)],
       disk = [''/srv/app/downloads/f.bin'' \<mapsto> [1, 2]]\<rparr>,
      [[(''http://h/f.bin'',
          \<lparr>fileName = ''f.bin'', fileSize = 4, downloadedBytes = 0, status = ''downloading'',
           url = ''http://h/f.bin'', startTime = 0\<rparr>)],
       [(''http://h/f.bin'',
          \<lparr>fileName = ''f.bin'', fileSize = 4, downloadedBytes = 2, status = ''downloading'',
           url = ''http://h/f.bin'', startTime = 0\<rparr>)],
       [(''http://h/f.bin'',
          \<lparr>fileName = ''f.bin'', fileSize = 4, downloadedBytes = 2, status = ''stopped'',
           url = ''http://h/f.bin'', startTime = 0\<rparr>)]])"
proof -
  have fields: "contentDisposition cancelledResponse = None"
    "openFailure cancelledResponse = None"
    "body cancelledResponse = [Data [1, 2], StopAll, Data [3, 4]]"
    by (simp_all add: cancelledResponse_def)
  have start: "updateDownloadProgress ''http://h/f.bin'' p [] = [(''http://h/f.bin'', p)]" for p
    by (simp add: updateDownloadProgress_def)
  have opened: "openDestination ''/srv/app/downloads/f.bin'' cancelledResponse Map.empty
                = [''/srv/app/downloads/f.bin'' \<mapsto> []]"
    by (simp add: openDestination_def fields)
  show ?thesis
    unfolding handleDownload_def emptyWorld_def
    by (simp only: exchange.case Let_def fields example_path cancelled_progress start opened
          world.simps simp_thms cancelled_body stream.simps)
       (simp add: settle_def pipelineError_def cleanup_def existsSync_def unlink_def
          failedToDownload_def stoppedByUser_def)
qed

text \<open>
  C5. A fetch that aborts because of a cancellation raises a distinguished
  \<^verbatim>\<open>Cancelled\<close> error that the caller can tell from a network or I/O failure. The
  listener does throw \<^verbatim>\<open>new Error('Download stopped by user')\<close>, but inside the stream's
  \<^verbatim>\<open>'data'\<close> callback, where no \<^verbatim>\<open>try\<close> block and no promise of \<^verbatim>\<open>handleDownload\<close>
  receives it. For the cancelled run of C4 the caller gets no error at all when the
  process exits on the uncaught exception; when the process survives it, the caller gets
  the same error as for a connection that breaks.
\<close>

theorem cancellation_error_lost:
  "fst (handleDownload False ''/srv/app'' (Responds cancelledResponse) ''http://h/f.bin'' emptyWorld)
     = Inl (ProcessExit (Error ''Download stopped by user'')) \<and>
   fst (handleDownload True ''/srv/app'' (Responds cancelledResponse) ''http://h/f.bin'' emptyWorld)
     = Inl (Rejected (Error (''Failed to download file: '' @ invalidCallback))) \<and>
   fst (handleDownload True ''/srv/app'' (Responds brokenResponse) ''http://h/f.bin'' emptyWorld)
     = Inl (Rejected (Error (''Failed to download file: '' @ invalidCallback)))"
proof -
  have sole: "soleWriter ''http://h/f.bin'' (body cancelledResponse)"
    "soleWriter ''http://h/f.bin'' (body brokenResponse)"
    by (simp_all add: soleWriter_def cancelledResponse_def brokenResponse_def)
  have facts: "\<not> fetchSucceeds (Responds cancelledResponse)"
    "interrupted False (body cancelledResponse)" "openFailure cancelledResponse = None"
    "\<not> fetchSucceeds (Responds brokenResponse)"
    "\<not> interrupted False (body brokenResponse)" "openFailure brokenResponse = None"
    by (simp_all add: fetchSucceeds_def cancelledResponse_def brokenResponse_def)
  from handleDownload_facts [OF wellformed_empty sole(1), of False "''/srv/app''"] facts
  have 1: "fst (handleDownload False ''/srv/app'' (Responds cancelledResponse) ''http://h/f.bin''
             emptyWorld) = Inl (ProcessExit (Error ''Download stopped by user''))"
    by (auto simp: stoppedByUser_def)
  from handleDownload_facts [OF wellformed_empty sole(1), of True "''/srv/app''"] facts
  have 2: "fst (handleDownload True ''/srv/app'' (Responds cancelledResponse) ''http://h/f.bin''
             emptyWorld) = Inl (Rejected (Error (''Failed to download file: '' @ invalidCallback)))"
    by (auto simp: rejection_def)
  from handleDownload_facts [OF wellformed_empty sole(2), of True "''/srv/app''"] facts
  have 3: "fst (handleDownload True ''/srv/app'' (Responds brokenResponse) ''http://h/f.bin''
             emptyWorld) = Inl (Rejected (Error (''Failed to download file: '' @ invalidCallback)))"
    by (auto simp: rejection_def)
  from 1 2 3 show ?thesis by simp
qed

section \<open>Facts about the chat handlers\<close>













subsection \<open>One step of a closure\<close>




subsection \<open>The interleaved run\<close>















subsection \<open>Delivery and the batch\<close>














end
